theory Spec2Isabelle
  imports Complex_Main "HOL-Library.Word"
begin

unbundle bit_operations_syntax

section \<open>Machine types, memory and the host\<close>

text \<open>
  The period adaptation layer of JACK (\<^verbatim>\<open>common/JackFormatConverter.cpp\<close>): port
  converters with shadow buffers, the input and the output period adapter, and the buffer
  converter whose process callback drives the client callback.
\<close>

text \<open>
  Modelled from the spec: \<^verbatim>\<open>jack_nframes_t\<close>, declared in \<^verbatim>\<open>jack/types.h\<close>, is an
  unsigned 32-bit integer, so every frame counter wraps at \<open>2 ^ 32\<close>.
\<close>

type_synonym jack_nframes_t = "32 word"

text \<open>
  Pointers, \<^verbatim>\<open>uintptr_t\<close>, \<^verbatim>\<open>size_t\<close> and \<^verbatim>\<open>unsigned long\<close> are 64-bit words.
  Memory is a flat map from byte addresses to bytes, the null pointer is address 0, and
  every address can be read and written: an access that C++ leaves undefined (through the
  null pointer, past the end of a buffer of \<^verbatim>\<open>BUFFER_SIZE_MAX\<close> samples) reads or writes
  the memory at that address.
\<close>

type_synonym addr = "64 word"
type_synonym memory = "addr \<Rightarrow> 8 word"

text \<open>
  \<^verbatim>\<open>std::memcpy\<close>, \<^verbatim>\<open>std::memmove\<close> and \<^verbatim>\<open>std::memset\<close>. Every byte of the
  destination is read from the memory before the call, which is what \<^verbatim>\<open>memmove\<close> does
  and what \<^verbatim>\<open>memcpy\<close> does wherever C defines it (regions that do not overlap).
\<close>

definition memmove :: "memory \<Rightarrow> addr \<Rightarrow> addr \<Rightarrow> 64 word \<Rightarrow> memory" where
  "memmove m dst src n = (\<lambda>a. if a - dst < n then m (src + (a - dst)) else m a)"

definition memcpy :: "memory \<Rightarrow> addr \<Rightarrow> addr \<Rightarrow> 64 word \<Rightarrow> memory" where
  "memcpy m dst src n = memmove m dst src n"

definition memset :: "memory \<Rightarrow> addr \<Rightarrow> 8 word \<Rightarrow> 64 word \<Rightarrow> memory" where
  "memset m dst c n = (\<lambda>a. if a - dst < n then c else m a)"

text \<open>
  The world outside the converters: the heap, the host operation
  \<^verbatim>\<open>jack_port_get_buffer(port, frames)\<close> (a port handle is a number; the result is the
  address of the server buffer, or 0), and the messages given to \<^verbatim>\<open>jack_error\<close>.
\<close>

record world =
  heap :: memory
  jack_port_get_buffer :: "nat \<Rightarrow> jack_nframes_t \<Rightarrow> addr"
  errors :: "string list"

text \<open>
  Modelled from the spec: \<^verbatim>\<open>jack_error\<close>, declared in \<^verbatim>\<open>JackError.h\<close>, is a write-only
  sink for error strings; the format string stands for the message.
\<close>

definition jack_error :: "string \<Rightarrow> world \<Rightarrow> world" where
  "jack_error msg w = w\<lparr>errors := errors w @ [msg]\<rparr>"

text \<open>
  \<^verbatim>\<open>EINVAL\<close> comes from \<^verbatim>\<open>errno.h\<close> of the C library: 22 on Linux, and positive on
  every POSIX system.
\<close>

definition EINVAL :: int where
  "EINVAL = 22"

text \<open>
  Modelled from the spec: \<^verbatim>\<open>sizeof(jack_default_audio_sample_t)\<close>; the type is declared
  in \<^verbatim>\<open>jack/types.h\<close>, and the server's samples are 32-bit floats.
\<close>

definition sizeof_sample :: "64 word" where
  "sizeof_sample = 4"

section \<open>The alignment macros\<close>

definition BUF_ALIGN_BYTES :: "64 word" where
  "BUF_ALIGN_BYTES = 32"

definition BUF_ALIGN_MASK :: "64 word" where
  "BUF_ALIGN_MASK = NOT (BUF_ALIGN_BYTES - 1)"

definition GET_32BYTE_ALIGN_BUFFER :: "addr \<Rightarrow> addr" where
  "GET_32BYTE_ALIGN_BUFFER buf = (buf AND BUF_ALIGN_MASK) + BUF_ALIGN_BYTES"

section \<open>Port converters\<close>

subsection \<open>ForwardJackPortConverter\<close>

record ForwardJackPortConverter =
  port :: nat
  buffer :: addr

definition get_buffer :: "('a ForwardJackPortConverter_scheme) \<Rightarrow> jack_nframes_t \<Rightarrow> world \<Rightarrow> addr" where
  "get_buffer c frames w = jack_port_get_buffer w (port c) frames"

definition Forward_get ::
  "ForwardJackPortConverter \<Rightarrow> jack_nframes_t \<Rightarrow> world \<Rightarrow> addr \<times> ForwardJackPortConverter \<times> world" where
  "Forward_get c frames w = (let b = get_buffer c frames w in (b, c\<lparr>buffer := b\<rparr>, w))"

definition Forward_set ::
  "ForwardJackPortConverter \<Rightarrow> addr \<Rightarrow> jack_nframes_t \<Rightarrow> world \<Rightarrow> ForwardJackPortConverter \<times> world" where
  "Forward_set c buf frames w =
     (if buf = buffer c then (c, w)
      else (c, w\<lparr>heap := memcpy (heap w) (get_buffer c frames w) buf (ucast frames * sizeof_sample)\<rparr>))"

subsection \<open>ShadowBufferJackPortConverter and IntegerJackPortConverter\<close>

text \<open>
  The two function pointer types of \<^verbatim>\<open>IntegerJackPortConverter\<close>: destination, source,
  sample count and stride (the unused trailing \<^verbatim>\<open>void*\<close> is dropped), acting on memory.
\<close>

type_synonym CopyFunction = "addr \<Rightarrow> addr \<Rightarrow> 64 word \<Rightarrow> 64 word \<Rightarrow> memory \<Rightarrow> memory"

text \<open>
  The class of the object decides which \<^verbatim>\<open>copy_from_jack\<close> and \<^verbatim>\<open>copy_to_jack\<close>
  a virtual call reaches; the integer class carries \<^verbatim>\<open>to_jack\<close> and \<^verbatim>\<open>from_jack\<close>.
\<close>

datatype shadow_class = ShadowBuffer | Integer CopyFunction CopyFunction

record ShadowBufferJackPortConverter = ForwardJackPortConverter +
  aligned_buffer :: addr
  sample_size :: "64 word"
  dyn_class :: shadow_class

text \<open>The constructor; \<open>storage\<close> is the address of the member array \<^verbatim>\<open>buffer\<close>.\<close>

definition ShadowBufferJackPortConverter_new ::
  "nat \<Rightarrow> 64 word \<Rightarrow> shadow_class \<Rightarrow> addr \<Rightarrow> ShadowBufferJackPortConverter" where
  "ShadowBufferJackPortConverter_new pt ssize cls storage =
     \<lparr>port = pt, buffer = 0, aligned_buffer = GET_32BYTE_ALIGN_BUFFER storage,
      sample_size = ssize, dyn_class = cls\<rparr>"

definition get_shadow_buffer :: "ShadowBufferJackPortConverter \<Rightarrow> addr" where
  "get_shadow_buffer c = aligned_buffer c"

definition get_shadow_buffer_at :: "ShadowBufferJackPortConverter \<Rightarrow> 64 word \<Rightarrow> addr" where
  "get_shadow_buffer_at c offset = get_shadow_buffer c + offset * sample_size c"

definition copy_from_jack ::
  "ShadowBufferJackPortConverter \<Rightarrow> jack_nframes_t \<Rightarrow> jack_nframes_t \<Rightarrow> jack_nframes_t \<Rightarrow> world
     \<Rightarrow> addr \<times> world" where
  "copy_from_jack c shadow_offset jack_offset frames w =
     (let src = get_buffer c (frames + jack_offset) w in
      if src = 0 then (0, w)
      else (case dyn_class c of
        ShadowBuffer \<Rightarrow>
          (let dst = get_shadow_buffer c;
               size = ucast frames * sizeof_sample in
           (dst + ucast shadow_offset * sizeof_sample,
            w\<lparr>heap := memcpy (heap w) (dst + ucast shadow_offset * sizeof_sample)
                                (src + ucast jack_offset * sizeof_sample) size\<rparr>))
      | Integer to_jack from_jack \<Rightarrow>
          (let dst = get_shadow_buffer c in
           (dst + sample_size c * ucast shadow_offset,
            w\<lparr>heap := from_jack (dst + ucast shadow_offset * sample_size c)
                                (src + ucast jack_offset * sizeof_sample)
                                (ucast frames) (sample_size c) (heap w)\<rparr>))))"

definition copy_to_jack ::
  "ShadowBufferJackPortConverter \<Rightarrow> addr \<Rightarrow> jack_nframes_t \<Rightarrow> jack_nframes_t \<Rightarrow> jack_nframes_t \<Rightarrow> world
     \<Rightarrow> world" where
  "copy_to_jack c src src_offset jack_offset frames w =
     (let dst = get_buffer c (frames + jack_offset) w in
      if dst = 0 then w
      else (case dyn_class c of
        ShadowBuffer \<Rightarrow>
          w\<lparr>heap := memcpy (heap w) (dst + ucast jack_offset * sizeof_sample)
                             (src + ucast src_offset * sizeof_sample)
                             (ucast frames * sizeof_sample)\<rparr>
      | Integer to_jack from_jack \<Rightarrow>
          w\<lparr>heap := to_jack (dst + ucast jack_offset * sizeof_sample)
                              (src + ucast src_offset * sample_size c)
                              (ucast frames) (sample_size c) (heap w)\<rparr>))"

definition silence_shadow :: "ShadowBufferJackPortConverter \<Rightarrow> jack_nframes_t \<Rightarrow> world \<Rightarrow> world" where
  "silence_shadow c frames w =
     w\<lparr>heap := memset (heap w) (get_shadow_buffer c) 0 (ucast frames * sample_size c)\<rparr>"

definition Shadow_get ::
  "ShadowBufferJackPortConverter \<Rightarrow> jack_nframes_t \<Rightarrow> world \<Rightarrow> addr \<times> world" where
  "Shadow_get c frames w = copy_from_jack c 0 0 frames w"

definition Shadow_set ::
  "ShadowBufferJackPortConverter \<Rightarrow> addr \<Rightarrow> jack_nframes_t \<Rightarrow> world \<Rightarrow> world" where
  "Shadow_set c src frames w = copy_to_jack c src 0 0 frames w"

section \<open>Period adapters\<close>

record FramesPortConverter =
  converter :: ShadowBufferJackPortConverter
  dst_frames :: jack_nframes_t
  shadow_frames :: jack_nframes_t
  jack_offset :: jack_nframes_t

definition FramesPortConverter_get ::
  "('a FramesPortConverter_scheme) \<Rightarrow> jack_nframes_t \<Rightarrow> world \<Rightarrow> addr \<times> world" where
  "FramesPortConverter_get p frames w =
     (if frames \<noteq> dst_frames p
      then (0, jack_error ''Requested frames (%lu) differ from configuration (%lu)'' w)
      else (get_shadow_buffer (converter p), w))"

subsection \<open>FramesInPortConverter\<close>

definition FramesInPortConverter_new ::
  "ShadowBufferJackPortConverter \<Rightarrow> jack_nframes_t \<Rightarrow> jack_nframes_t \<Rightarrow> world
     \<Rightarrow> FramesPortConverter \<times> world" where
  "FramesInPortConverter_new conv dstf silence_prefill w =
     (\<lparr>converter = conv, dst_frames = dstf, shadow_frames = silence_prefill, jack_offset = 0\<rparr>,
      silence_shadow conv silence_prefill w)"

definition append_from_jack ::
  "FramesPortConverter \<Rightarrow> jack_nframes_t \<Rightarrow> world \<Rightarrow> int \<times> FramesPortConverter \<times> world" where
  "append_from_jack p missing_jack_frames w =
     (let w' = snd (copy_from_jack (converter p) (shadow_frames p) (jack_offset p) missing_jack_frames w)
      in (1, p\<lparr>jack_offset := jack_offset p + missing_jack_frames, shadow_frames := 0\<rparr>, w'))"

definition FramesInPortConverter_next ::
  "FramesPortConverter \<Rightarrow> jack_nframes_t \<Rightarrow> world \<Rightarrow> int \<times> FramesPortConverter \<times> world" where
  "FramesInPortConverter_next p frames w =
     (if shadow_frames p > dst_frames p
      then (- EINVAL, p,
            jack_error ''Inport shadow buffer should not contain more frames (%lu) then requested (%lu)'' w)
      else
        let jack_frames = frames - jack_offset p in
        if shadow_frames p + jack_frames \<ge> dst_frames p
        then
          (let missing_jack_frames = dst_frames p - shadow_frames p
           in append_from_jack p missing_jack_frames w)
        else
          (let w' = snd (copy_from_jack (converter p) (shadow_frames p) (jack_offset p) jack_frames w)
           in (0, p\<lparr>shadow_frames := shadow_frames p + jack_frames, jack_offset := 0\<rparr>, w')))"

definition FramesInPortConverter_set ::
  "FramesPortConverter \<Rightarrow> addr \<Rightarrow> jack_nframes_t \<Rightarrow> world \<Rightarrow> world" where
  "FramesInPortConverter_set p src frames w =
     jack_error ''Not allowed to call set() for input ports'' w"

subsection \<open>FramesOutPortConverter\<close>

record FramesOutPortConverter = FramesPortConverter +
  shadow_offset :: jack_nframes_t
  client_frames :: jack_nframes_t

definition FramesOutPortConverter_new ::
  "ShadowBufferJackPortConverter \<Rightarrow> jack_nframes_t \<Rightarrow> FramesOutPortConverter" where
  "FramesOutPortConverter_new conv dstf =
     \<lparr>converter = conv, dst_frames = dstf, shadow_frames = 0, jack_offset = 0,
      shadow_offset = 0, client_frames = 0\<rparr>"

definition FramesOutPortConverter_next ::
  "FramesOutPortConverter \<Rightarrow> jack_nframes_t \<Rightarrow> world \<Rightarrow> int \<times> FramesOutPortConverter \<times> world" where
  "FramesOutPortConverter_next p frames w =
     (if shadow_frames p > (if frames > dst_frames p then frames else dst_frames p)
      then (- EINVAL, p,
            jack_error ''OutPort shadow buffer should not contain more frames (%lu) then requested (%lu)'' w)
      else
        let (p1, w1) =
          (if shadow_frames p + client_frames p \<ge> frames
           then
             (let w' = copy_to_jack (converter p)
                         (get_shadow_buffer_at (converter p) (ucast (shadow_offset p))) 0 0 frames w;
                  p' = p\<lparr>shadow_frames := shadow_frames p + client_frames p - frames,
                         shadow_offset := shadow_offset p + frames\<rparr>
              in (if shadow_frames p' = 0 then p'\<lparr>shadow_offset := 0\<rparr> else p', w'))
           else (p\<lparr>shadow_frames := shadow_frames p + client_frames p\<rparr>, w));
            (p2, w2) =
          (if shadow_offset p1 \<noteq> 0 \<and> shadow_frames p1 \<le> frames
           then (p1\<lparr>shadow_offset := 0\<rparr>,
                 w1\<lparr>heap := memmove (heap w1) (get_shadow_buffer (converter p1))
                                 (get_shadow_buffer_at (converter p1) (ucast (shadow_offset p1)))
                                 (ucast (shadow_frames p1) * sample_size (converter p1))\<rparr>)
           else (p1, w1))
        in (1, p2\<lparr>client_frames := 0\<rparr>, w2))"

definition FramesOutPortConverter_get ::
  "FramesOutPortConverter \<Rightarrow> jack_nframes_t \<Rightarrow> world \<Rightarrow> addr \<times> world" where
  "FramesOutPortConverter_get p frames w =
     (if frames \<noteq> dst_frames p
      then (0, jack_error ''Requested frames (%lu) differ from configuration (%lu)'' w)
      else (get_shadow_buffer_at (converter p)
              (ucast (shadow_offset p + shadow_frames p + client_frames p)), w))"

definition FramesOutPortConverter_set ::
  "FramesOutPortConverter \<Rightarrow> addr \<Rightarrow> jack_nframes_t \<Rightarrow> world \<Rightarrow> world" where
  "FramesOutPortConverter_set p src frames w =
     (let w1 = (if frames \<noteq> dst_frames p
                then jack_error ''Requested frames (%lu) differ from configuration (%lu)'' w
                else w);
          buf = get_shadow_buffer_at (converter p)
                  (ucast (shadow_offset p + shadow_frames p + client_frames p))
      in if src = buf then w1
         else w1\<lparr>heap := memcpy (heap w1) buf src (ucast frames * sample_size (converter p))\<rparr>)"

definition FramesOutPortConverter_update_client_frames ::
  "FramesOutPortConverter \<Rightarrow> FramesOutPortConverter" where
  "FramesOutPortConverter_update_client_frames p = p\<lparr>client_frames := client_frames p + dst_frames p\<rparr>"

subsection \<open>Virtual dispatch over the two adapter classes\<close>

datatype frames_port = InPort FramesPortConverter | OutPort FramesOutPortConverter

fun port_next :: "frames_port \<Rightarrow> jack_nframes_t \<Rightarrow> world \<Rightarrow> int \<times> frames_port \<times> world" where
  "port_next (InPort p) frames w =
     (case FramesInPortConverter_next p frames w of (r, p', w') \<Rightarrow> (r, InPort p', w'))"
| "port_next (OutPort p) frames w =
     (case FramesOutPortConverter_next p frames w of (r, p', w') \<Rightarrow> (r, OutPort p', w'))"

fun update_client_frames :: "frames_port \<Rightarrow> frames_port" where
  "update_client_frames (InPort p) = InPort p"
| "update_client_frames (OutPort p) = OutPort (FramesOutPortConverter_update_client_frames p)"

fun port_get :: "frames_port \<Rightarrow> jack_nframes_t \<Rightarrow> world \<Rightarrow> addr \<times> world" where
  "port_get (InPort p) frames w = FramesPortConverter_get p frames w"
| "port_get (OutPort p) frames w = FramesOutPortConverter_get p frames w"

fun port_set :: "frames_port \<Rightarrow> addr \<Rightarrow> jack_nframes_t \<Rightarrow> world \<Rightarrow> world" where
  "port_set (InPort p) src frames w = FramesInPortConverter_set p src frames w"
| "port_set (OutPort p) src frames w = FramesOutPortConverter_set p src frames w"

section \<open>The buffer converter (aggregator)\<close>

text \<open>
  \<^verbatim>\<open>calculate_silence_prefill\<close>. The operator \<^verbatim>\<open>%\<close> with a zero divisor is undefined in
  C++ (a trap on the usual hardware): the result is \<open>None\<close> there.
\<close>

definition calculate_silence_prefill :: "jack_nframes_t \<Rightarrow> jack_nframes_t \<Rightarrow> jack_nframes_t option" where
  "calculate_silence_prefill client_per_size server_per_size =
     (if server_per_size > client_per_size then
        (if client_per_size = 0 then None
         else if server_per_size mod client_per_size = 0 then Some 0
         else Some client_per_size)
      else if server_per_size < client_per_size then
        (if server_per_size = 0 then None
         else if client_per_size mod server_per_size = 0 then Some (client_per_size - server_per_size)
         else Some client_per_size)
      else Some 0)"

record JackBufferConverter =
  InPorts :: "frames_port list"
  OutPorts :: "frames_port list"
  bc_dst_frames :: jack_nframes_t
  silence_prefil :: jack_nframes_t

text \<open>
  The constructor: \<open>server_period\<close> is what \<^verbatim>\<open>jack_get_buffer_size(client)\<close> returns,
  \<open>arg_is_null\<close> whether \<^verbatim>\<open>arg == NULL\<close>, \<open>registered\<close> what
  \<^verbatim>\<open>jack_set_process_callback\<close> returns. The member initialisers run before the body.
\<close>

datatype construct_error = DivisionByZero | Exception

definition JackBufferConverter_new ::
  "jack_nframes_t \<Rightarrow> bool \<Rightarrow> int \<Rightarrow> jack_nframes_t \<Rightarrow> construct_error + JackBufferConverter" where
  "JackBufferConverter_new server_period arg_is_null registered dstf =
     (case calculate_silence_prefill dstf server_period of
        None \<Rightarrow> Inl DivisionByZero
      | Some prefill \<Rightarrow>
          if arg_is_null then Inl Exception
          else if registered \<noteq> 0 then Inl Exception
          else Inr \<lparr>InPorts = [], OutPorts = [], bc_dst_frames = dstf, silence_prefil = prefill\<rparr>)"

text \<open>
  \<^verbatim>\<open>add\<close>. The flag bit \<^verbatim>\<open>JackPortIsOutput\<close> is declared in \<^verbatim>\<open>jack/types.h\<close>; it is
  a parameter here.
\<close>

definition add :: "int \<Rightarrow> JackBufferConverter \<Rightarrow> frames_port \<Rightarrow> int \<Rightarrow> JackBufferConverter" where
  "add JackPortIsOutput bc p flags =
     (if flags AND JackPortIsOutput \<noteq> 0 then bc\<lparr>OutPorts := OutPorts bc @ [p]\<rparr>
      else bc\<lparr>InPorts := InPorts bc @ [p]\<rparr>)"

text \<open>
  What the process callback does that an observer outside can see, in order: each call of
  a port's \<^verbatim>\<open>next\<close> with its result, and each invocation of the client callback with
  the frame count handed to it, the world it was invoked in (what the memory held at
  that moment) and the value it returned.
\<close>

datatype event = PortNext int | ClientCallback jack_nframes_t world int

text \<open>
  \<^verbatim>\<open>JackBufferConverter::next\<close>: the loop over the ports, with \<open>result\<close> the running
  minimum; a negative result of a port leaves the ports after it untouched.
\<close>

fun next_loop ::
  "jack_nframes_t \<Rightarrow> frames_port list \<Rightarrow> int \<Rightarrow> world \<Rightarrow> int \<times> frames_port list \<times> world \<times> event list" where
  "next_loop frames [] result w = (result, [], w, [])"
| "next_loop frames (p # ps) result w =
     (case port_next p frames w of (ret, p', w') \<Rightarrow>
        if ret < 0 then (ret, p' # ps, w', [PortNext ret])
        else (case next_loop frames ps (if ret < result then ret else result) w' of
                (r, ps', w'', evs) \<Rightarrow> (r, p' # ps', w'', PortNext ret # evs)))"

definition JackBufferConverter_next ::
  "jack_nframes_t \<Rightarrow> frames_port list \<Rightarrow> world \<Rightarrow> int \<times> frames_port list \<times> world \<times> event list" where
  "JackBufferConverter_next frames ports w =
     (if ports = [] then (- 1, ports, jack_error ''Processing called without any audio ports'' w, [])
      else next_loop frames ports 1 w)"

text \<open>
  The client callback is code of the client: it receives the frame count, may call
  \<^verbatim>\<open>get\<close> and \<^verbatim>\<open>set\<close> on the adapters (so it sees the converter, whose counters
  neither call changes) and read and write memory, and returns an \<^verbatim>\<open>int\<close>.
\<close>

type_synonym JackProcessCallback = "jack_nframes_t \<Rightarrow> JackBufferConverter \<Rightarrow> world \<Rightarrow> int \<times> world"

text \<open>
  \<^verbatim>\<open>JackBufferConverter::converter\<close>, the registered process callback. The \<^verbatim>\<open>while\<close>
  loop leaves either with the negative result of the client callback, which
  \<^verbatim>\<open>converter\<close> returns at once, or with the last result of the input side. A loop that
  never ends is \<open>None\<close>.
\<close>

datatype loop_exit = CallbackFailed int | InputsDone int

partial_function (option) converter_loop ::
  "JackProcessCallback \<Rightarrow> jack_nframes_t \<Rightarrow> JackBufferConverter \<Rightarrow> world \<Rightarrow> event list
     \<Rightarrow> (loop_exit \<times> JackBufferConverter \<times> world \<times> event list) option" where
  "converter_loop callback frames conv w tr =
     (case JackBufferConverter_next frames (InPorts conv) w of (ret, ips, w1, evs) \<Rightarrow>
        let conv1 = conv\<lparr>InPorts := ips\<rparr> in
        if ret \<ge> 1 then
          (case callback (bc_dst_frames conv1) conv1 w1 of (cb_ret, w2) \<Rightarrow>
             let tr2 = tr @ evs @ [ClientCallback (bc_dst_frames conv1) w1 cb_ret] in
             if cb_ret < 0 then Some (CallbackFailed cb_ret, conv1, w2, tr2)
             else converter_loop callback frames
                    (conv1\<lparr>OutPorts := map update_client_frames (OutPorts conv1)\<rparr>) w2 tr2)
        else Some (InputsDone ret, conv1, w1, tr @ evs))"

declare converter_loop.simps [code]

definition JackBufferConverter_converter ::
  "JackProcessCallback \<Rightarrow> jack_nframes_t \<Rightarrow> JackBufferConverter \<Rightarrow> world
     \<Rightarrow> (int \<times> JackBufferConverter \<times> world \<times> event list) option" where
  "JackBufferConverter_converter callback frames conv w =
     (case converter_loop callback frames conv w [] of
        None \<Rightarrow> None
      | Some (CallbackFailed cb_ret, conv1, w1, tr) \<Rightarrow> Some (cb_ret, conv1, w1, tr)
      | Some (InputsDone ret, conv1, w1, tr) \<Rightarrow>
          (case JackBufferConverter_next frames (OutPorts conv1) w1 of (outport_ret, ops, w2, evs) \<Rightarrow>
             let conv2 = conv1\<lparr>OutPorts := ops\<rparr> in
             if outport_ret < 0 then Some (outport_ret, conv2, w2, tr @ evs)
             else Some (ret, conv2, w2, tr @ evs)))"

text \<open>
  The host that drives the process callback: one call of \<^verbatim>\<open>JackBufferConverter::converter\<close> per server period.
  Between two periods the host may change the world (fill the input buffers, hand out
  other buffers); \<open>hs\<close> holds one such change for each period. The results of the calls
  are collected, and so are the events.
\<close>

fun server_cycles ::
  "JackProcessCallback \<Rightarrow> jack_nframes_t \<Rightarrow> (world \<Rightarrow> world) list \<Rightarrow> JackBufferConverter \<Rightarrow> world
     \<Rightarrow> (int list \<times> JackBufferConverter \<times> world \<times> event list) option" where
  "server_cycles callback frames [] conv w = Some ([], conv, w, [])"
| "server_cycles callback frames (h # hs) conv w =
     (case JackBufferConverter_converter callback frames conv (h w) of
        None \<Rightarrow> None
      | Some (r, conv1, w1, tr) \<Rightarrow>
          (case server_cycles callback frames hs conv1 w1 of
             None \<Rightarrow> None
           | Some (rs, conv2, w2, tr') \<Rightarrow> Some (r # rs, conv2, w2, tr @ tr')))"

section \<open>The factory\<close>

datatype JackPortConverterFormat_t =
  JACK_PORT_CONV_FMT_DEFAULT | JACK_PORT_CONV_FMT_INT16 | JACK_PORT_CONV_FMT_INT32 | FMT_other

text \<open>An \<^verbatim>\<open>IJackPortConverter*\<close> handed to the client points to an object of one of these classes.\<close>

datatype IJackPortConverter =
  Forward ForwardJackPortConverter
| Shadow ShadowBufferJackPortConverter
| Frames frames_port

text \<open>
  The four sample conversion routines work in single precision floating point; the
  factory takes them as they are, as functions on memory.
\<close>

record sample_moves =
  sample_move_dS_s32 :: CopyFunction
  sample_move_d32_sS :: CopyFunction
  sample_move_dS_s16 :: CopyFunction
  sample_move_d16_sS :: CopyFunction

text \<open>
  \<^verbatim>\<open>jack_port_create_convert\<close>: \<open>flags\<close> is what \<^verbatim>\<open>jack_port_flags(port)\<close> returns,
  \<open>storage\<close> where the shadow array of a new object lies, \<open>iconv\<close> the buffer converter
  or \<open>None\<close> for \<^verbatim>\<open>nullptr\<close>, \<open>JackPortIsOutput\<close> the flag bit of that name. The result is the new converter (\<open>None\<close> for \<^verbatim>\<open>NULL\<close>)
  with the buffer converter and the world as the call leaves them.
\<close>

definition jack_port_create_convert ::
  "int \<Rightarrow> sample_moves \<Rightarrow> nat \<Rightarrow> int \<Rightarrow> addr \<Rightarrow> JackPortConverterFormat_t \<Rightarrow> bool
     \<Rightarrow> JackBufferConverter option \<Rightarrow> world
     \<Rightarrow> IJackPortConverter option \<times> JackBufferConverter option \<times> world" where
  "jack_port_create_convert JackPortIsOutput sm pt flags storage dst_type init_output_silence iconv w =
     (let after_format = (\<lambda>format_conv.
        case iconv of
          None \<Rightarrow> (Some (Shadow format_conv), iconv, w)
        | Some conv \<Rightarrow>
            if flags < 0 then (None, iconv, jack_error ''Getting flags of port %s failed'' w)
            else if flags AND JackPortIsOutput \<noteq> 0 then
              (let frames_conv = OutPort (FramesOutPortConverter_new format_conv (bc_dst_frames conv))
               in (Some (Frames frames_conv), Some (add JackPortIsOutput conv frames_conv flags), w))
            else
              (case FramesInPortConverter_new format_conv (bc_dst_frames conv) (silence_prefil conv) w of
                 (p, w') \<Rightarrow>
                   (Some (Frames (InPort p)), Some (add JackPortIsOutput conv (InPort p) flags), w')))
      in case dst_type of
        JACK_PORT_CONV_FMT_DEFAULT \<Rightarrow>
          (if iconv = None then (Some (Forward \<lparr>port = pt, buffer = 0\<rparr>), iconv, w)
           else after_format (ShadowBufferJackPortConverter_new pt sizeof_sample ShadowBuffer storage))
      | JACK_PORT_CONV_FMT_INT32 \<Rightarrow>
          after_format (ShadowBufferJackPortConverter_new pt 4
                          (Integer (sample_move_dS_s32 sm) (sample_move_d32_sS sm)) storage)
      | JACK_PORT_CONV_FMT_INT16 \<Rightarrow>
          after_format (ShadowBufferJackPortConverter_new pt 2
                          (Integer (sample_move_dS_s16 sm) (sample_move_d16_sS sm)) storage)
      | FMT_other \<Rightarrow>
          (None, iconv,
           jack_error ''jack_port_create_converter called with dst_type that is not supported'' w))"

text \<open>
  The buffer converters a client can build: a successful constructor call, then any
  number of ports created on it.
\<close>

inductive constructed :: "jack_nframes_t \<Rightarrow> JackBufferConverter \<Rightarrow> bool" where
  fresh: "JackBufferConverter_new server_period arg_is_null registered dstf = Inr conv
            \<Longrightarrow> constructed server_period conv"
| port_added: "constructed server_period conv
            \<Longrightarrow> jack_port_create_convert is_output sm pt flags storage dst_type init_output_silence
                  (Some conv) w
                  = (res, Some conv', w')
            \<Longrightarrow> constructed server_period conv'"

text \<open>\<^verbatim>\<open>get\<close> and \<^verbatim>\<open>set\<close> through the interface, as a client calls them.\<close>

fun IJackPortConverter_get ::
  "IJackPortConverter \<Rightarrow> jack_nframes_t \<Rightarrow> world \<Rightarrow> addr \<times> IJackPortConverter \<times> world" where
  "IJackPortConverter_get (Forward c) frames w =
     (case Forward_get c frames w of (b, c', w') \<Rightarrow> (b, Forward c', w'))"
| "IJackPortConverter_get (Shadow c) frames w =
     (case Shadow_get c frames w of (b, w') \<Rightarrow> (b, Shadow c, w'))"
| "IJackPortConverter_get (Frames p) frames w =
     (case port_get p frames w of (b, w') \<Rightarrow> (b, Frames p, w'))"

fun IJackPortConverter_set ::
  "IJackPortConverter \<Rightarrow> addr \<Rightarrow> jack_nframes_t \<Rightarrow> world \<Rightarrow> IJackPortConverter \<times> world" where
  "IJackPortConverter_set (Forward c) buf frames w =
     (case Forward_set c buf frames w of (c', w') \<Rightarrow> (Forward c', w'))"
| "IJackPortConverter_set (Shadow c) buf frames w = (Shadow c, Shadow_set c buf frames w)"
| "IJackPortConverter_set (Frames p) buf frames w = (Frames p, port_set p buf frames w)"

section \<open>What a copy between server buffer and shadow buffer does, in the words of the specification\<close>

text \<open>
  \<open>copied_from_server c shadow_off server_off n w w'\<close>: from \<open>w\<close> to \<open>w'\<close>, \<open>n\<close> frames
  went from the server buffer at frame \<open>server_off\<close> into the shadow buffer at frame
  \<open>shadow_off\<close> and nothing else changed: for the float shadow the \<open>4 * n\<close> bytes starting
  there are the bytes of the server buffer, for the integer shadow the conversion routine
  ran over these \<open>n\<close> samples; a null server buffer leaves the memory as it was.
\<close>

definition copied_from_server ::
  "ShadowBufferJackPortConverter \<Rightarrow> jack_nframes_t \<Rightarrow> jack_nframes_t \<Rightarrow> jack_nframes_t
     \<Rightarrow> world \<Rightarrow> world \<Rightarrow> bool" where
  "copied_from_server c shadow_off server_off n w w' =
     (errors w' = errors w \<and> jack_port_get_buffer w' = jack_port_get_buffer w \<and>
      (let srv = jack_port_get_buffer w (port c) (n + server_off);
           sh = aligned_buffer c
       in if srv = 0 then heap w' = heap w
          else (case dyn_class c of
            ShadowBuffer \<Rightarrow>
              (\<forall>a. heap w' a =
                 (if a - (sh + 4 * ucast shadow_off) < 4 * ucast n
                  then heap w (srv + 4 * ucast server_off + (a - (sh + 4 * ucast shadow_off)))
                  else heap w a))
          | Integer to_jack from_jack \<Rightarrow>
              heap w' = from_jack (sh + ucast shadow_off * sample_size c) (srv + 4 * ucast server_off)
                          (ucast n) (sample_size c) (heap w))))"

text \<open>
  \<open>copied_to_server c shadow_off n w w'\<close>: \<open>n\<close> frames went from the shadow buffer at
  frame \<open>shadow_off\<close> to the start of the server buffer, and nothing else changed.
\<close>

definition copied_to_server ::
  "ShadowBufferJackPortConverter \<Rightarrow> jack_nframes_t \<Rightarrow> jack_nframes_t \<Rightarrow> world \<Rightarrow> world \<Rightarrow> bool" where
  "copied_to_server c shadow_off n w w' =
     (errors w' = errors w \<and> jack_port_get_buffer w' = jack_port_get_buffer w \<and>
      (let srv = jack_port_get_buffer w (port c) n;
           sh = aligned_buffer c + ucast shadow_off * sample_size c
       in if srv = 0 then heap w' = heap w
          else (case dyn_class c of
            ShadowBuffer \<Rightarrow>
              (\<forall>a. heap w' a = (if a - srv < 4 * ucast n then heap w (sh + (a - srv)) else heap w a))
          | Integer to_jack from_jack \<Rightarrow>
              heap w' = to_jack srv sh (ucast n) (sample_size c) (heap w))))"

text \<open>
  \<open>moved_to_front c shadow_off n w w'\<close>: the \<open>n\<close> frames of the shadow buffer starting at
  frame \<open>shadow_off\<close> now start at frame 0, and nothing else changed.
\<close>

definition moved_to_front ::
  "ShadowBufferJackPortConverter \<Rightarrow> jack_nframes_t \<Rightarrow> jack_nframes_t \<Rightarrow> world \<Rightarrow> world \<Rightarrow> bool" where
  "moved_to_front c shadow_off n w w' =
     (errors w' = errors w \<and> jack_port_get_buffer w' = jack_port_get_buffer w \<and>
      (\<forall>a. heap w' a =
         (if a - aligned_buffer c < ucast n * sample_size c
          then heap w (aligned_buffer c + ucast shadow_off * sample_size c + (a - aligned_buffer c))
          else heap w a)))"

section \<open>Observations on a run\<close>

fun is_callback :: "event \<Rightarrow> bool" where
  "is_callback (ClientCallback n w r) = True"
| "is_callback (PortNext r) = False"

definition callbacks :: "event list \<Rightarrow> nat" where
  "callbacks tr = length (filter is_callback tr)"

text \<open>
  The events of one pass of the \<^verbatim>\<open>while\<close> loop that reaches the client callback:
  each of the \<open>k\<close> input adapters has returned 1, then the callback is invoked with \<open>n\<close>,
  in the world \<open>fst i\<close>, and returns \<open>snd i\<close>.
\<close>

definition ready_pass :: "nat \<Rightarrow> jack_nframes_t \<Rightarrow> world \<times> int \<Rightarrow> event list" where
  "ready_pass k n i = replicate k (PortNext 1) @ [ClientCallback n (fst i) (snd i)]"

text \<open>The values the invocations of the client callback returned, in order.\<close>

fun callback_results :: "event list \<Rightarrow> int list" where
  "callback_results [] = []"
| "callback_results (PortNext r # tr) = callback_results tr"
| "callback_results (ClientCallback n w r # tr) = r # callback_results tr"

text \<open>
  The input list holds input adapters only, each with a client period that is not 0
  (\<^verbatim>\<open>add\<close> sorts the adapters by direction).
\<close>

fun input_adapter_ok :: "frames_port \<Rightarrow> bool" where
  "input_adapter_ok (InPort q) = (dst_frames q \<noteq> 0)"
| "input_adapter_ok (OutPort q) = False"

definition inputs_ok :: "JackBufferConverter \<Rightarrow> bool" where
  "inputs_ok conv = list_all input_adapter_ok (InPorts conv)"

text \<open>All adapters of a list are input adapters with the same three counters.\<close>

fun input_at :: "jack_nframes_t \<Rightarrow> jack_nframes_t \<Rightarrow> jack_nframes_t \<Rightarrow> frames_port \<Rightarrow> bool" where
  "input_at C sf jo (InPort q) = (dst_frames q = C \<and> shadow_frames q = sf \<and> jack_offset q = jo)"
| "input_at C sf jo (OutPort q) = False"

definition inputs_at :: "jack_nframes_t \<Rightarrow> jack_nframes_t \<Rightarrow> jack_nframes_t \<Rightarrow> frames_port list \<Rightarrow> bool" where
  "inputs_at C sf jo ps = list_all (input_at C sf jo) ps"

text \<open>
  How far the first input adapter is from running out of server frames: the frames of the
  server buffer it has not taken yet, and \<open>2 ^ 32\<close> more while its shadow buffer still
  holds frames from earlier periods. Every pass of the \<^verbatim>\<open>while\<close> loop that reaches the
  client callback makes this smaller.
\<close>

fun head_slack :: "jack_nframes_t \<Rightarrow> frames_port list \<Rightarrow> nat" where
  "head_slack frames (InPort q # ps) =
     (if shadow_frames q = 0 then 0 else 2 ^ 32) + unat (frames - jack_offset q)"
| "head_slack frames ps = 0"

section \<open>Example data\<close>

text \<open>
  A world with silent memory in which the server buffer of port \<open>pt\<close> lies at
  \<open>0x10000 * (pt + 1)\<close>; float shadow converters whose storage for port \<open>pt\<close> lies at
  \<open>0x100000 * (pt + 1) + 4\<close>; a client that does nothing and returns 0, and one that
  returns \<open>-5\<close>; and the buffer
  converter for a client period of 64 frames under a server period of 100 frames, with
  port 0 as its input and port 1 as its output.
\<close>

definition example_world :: world where
  "example_world = \<lparr>heap = (\<lambda>a. 0), jack_port_get_buffer = (\<lambda>pt n. 0x10000 * (of_nat pt + 1)), errors = []\<rparr>"

definition example_shadow :: "nat \<Rightarrow> ShadowBufferJackPortConverter" where
  "example_shadow pt =
     ShadowBufferJackPortConverter_new pt sizeof_sample ShadowBuffer (0x100000 * (of_nat pt + 1) + 4)"

definition example_client :: JackProcessCallback where
  "example_client n conv w = (0, w)"

definition failing_client :: JackProcessCallback where
  "failing_client n conv w = (- 5, w)"

definition example_converter :: JackBufferConverter where
  "example_converter =
     \<lparr>InPorts = [InPort \<lparr>converter = example_shadow 0, dst_frames = 64, shadow_frames = 64,
                          jack_offset = 0\<rparr>],
      OutPorts = [OutPort \<lparr>converter = example_shadow 1, dst_frames = 64, shadow_frames = 0,
                            jack_offset = 0, shadow_offset = 0, client_frames = 0\<rparr>],
      bc_dst_frames = 64, silence_prefil = 64\<rparr>"

text \<open>
  The fresh output adapter of the example converter; a world in which a buffer of the
  client at \<open>0x5000\<close> starts with the byte \<open>0x7F\<close>; a client storing one byte; the
  number of client callbacks in a run of server periods; and the address \<^verbatim>\<open>get\<close>
  returns on the first output adapter after a call of the process callback.
\<close>

definition example_output :: FramesOutPortConverter where
  "example_output = FramesOutPortConverter_new (example_shadow 1) 64"

definition client_world :: world where
  "client_world = example_world\<lparr>heap := (\<lambda>a. if a = 0x5000 then 0x7F else 0)\<rparr>"

definition client_writes :: "addr \<Rightarrow> 8 word \<Rightarrow> world \<Rightarrow> world" where
  "client_writes a b w = w\<lparr>heap := (heap w)(a := b)\<rparr>"

definition callback_count ::
  "(int list \<times> JackBufferConverter \<times> world \<times> event list) option \<Rightarrow> nat option" where
  "callback_count res = (case res of None \<Rightarrow> None | Some (rs, conv, w, tr) \<Rightarrow> Some (callbacks tr))"

definition first_output_get ::
  "jack_nframes_t \<Rightarrow> (int \<times> JackBufferConverter \<times> world \<times> event list) option \<Rightarrow> addr option" where
  "first_output_get frames res =
     (case res of
        None \<Rightarrow> None
      | Some (r, conv, w, tr) \<Rightarrow> Some (fst (IJackPortConverter_get (Frames (hd (OutPorts conv))) frames w)))"

section \<open>Alignment\<close>

definition is_32byte_aligned :: "addr \<Rightarrow> bool" where
  "is_32byte_aligned a = (a AND (BUF_ALIGN_BYTES - 1) = 0)"

text \<open>The shadow converter behind an interface pointer, if there is one.\<close>

fun shadow_of :: "IJackPortConverter \<Rightarrow> ShadowBufferJackPortConverter option" where
  "shadow_of (Forward c) = None"
| "shadow_of (Shadow c) = Some c"
| "shadow_of (Frames (InPort q)) = Some (converter q)"
| "shadow_of (Frames (OutPort q)) = Some (converter q)"

fun is_output_adapter :: "IJackPortConverter \<Rightarrow> bool" where
  "is_output_adapter (Frames (OutPort q)) = True"
| "is_output_adapter h = False"

section \<open>Silence prefill\<close>

lemma calculate_silence_prefill_total:
  "C \<noteq> 0 \<Longrightarrow> S \<noteq> 0 \<Longrightarrow> \<exists>P. calculate_silence_prefill C S = Some P"
  by (simp add: calculate_silence_prefill_def)

lemma calculate_silence_prefill_le:
  "calculate_silence_prefill C S = Some P \<Longrightarrow> P \<le> C"
  by (auto simp: calculate_silence_prefill_def word_sub_le split: if_splits)

text \<open>
  C4. For a client period \<open>C\<close> and a server period \<open>S\<close> that are not 0, the constructor
  of the buffer converter (given a client, and a process callback that registers) succeeds
  and stores the silence prefill 0 when \<open>S = C\<close>; 0 when \<open>S > C\<close> and \<open>S mod C = 0\<close>;
  \<open>C\<close> when \<open>S > C\<close> and \<open>S mod C \<noteq> 0\<close>; \<open>C - S\<close> when \<open>S < C\<close> and
  \<open>C mod S = 0\<close>; \<open>C\<close> when \<open>S < C\<close> and \<open>C mod S \<noteq> 0\<close>. And whenever the
  constructor succeeds, for any periods and arguments, the prefill it stores is the one of
  this table.
\<close>

theorem silence_prefill_at_construction:
  "(C \<noteq> 0 \<and> S \<noteq> 0 \<longrightarrow>
      JackBufferConverter_new S False 0 C =
        Inr \<lparr>InPorts = [], OutPorts = [], bc_dst_frames = C,
             silence_prefil =
               (if S = C then 0
                else if S > C then (if S mod C = 0 then 0 else C)
                else (if C mod S = 0 then C - S else C))\<rparr>) \<and>
   (JackBufferConverter_new S arg_is_null registered C = Inr conv \<longrightarrow>
      bc_dst_frames conv = C \<and>
      silence_prefil conv =
        (if S = C then 0
         else if S > C then (if S mod C = 0 then 0 else C)
         else (if C mod S = 0 then C - S else C)))"
  by (auto simp: JackBufferConverter_new_def calculate_silence_prefill_def
           split: option.splits if_splits)

text \<open>
  The five rows of the table: \<open>S = C = 64\<close>; \<open>S = 128\<close>, \<open>C = 64\<close>; \<open>S = 100\<close>,
  \<open>C = 64\<close>; \<open>S = 32\<close>, \<open>C = 128\<close>; \<open>S = 48\<close>, \<open>C = 128\<close>.
\<close>

theorem silence_prefill_at_construction_witness:
  "JackBufferConverter_new 64 False 0 64
     = Inr \<lparr>InPorts = [], OutPorts = [], bc_dst_frames = 64, silence_prefil = 0\<rparr> \<and>
   JackBufferConverter_new 128 False 0 64
     = Inr \<lparr>InPorts = [], OutPorts = [], bc_dst_frames = 64, silence_prefil = 0\<rparr> \<and>
   JackBufferConverter_new 100 False 0 64
     = Inr \<lparr>InPorts = [], OutPorts = [], bc_dst_frames = 64, silence_prefil = 64\<rparr> \<and>
   JackBufferConverter_new 32 False 0 128
     = Inr \<lparr>InPorts = [], OutPorts = [], bc_dst_frames = 128, silence_prefil = 96\<rparr> \<and>
   JackBufferConverter_new 48 False 0 128
     = Inr \<lparr>InPorts = [], OutPorts = [], bc_dst_frames = 128, silence_prefil = 128\<rparr>"
  using silence_prefill_at_construction [of 64 64 False 0 undefined]
        silence_prefill_at_construction [of 64 128 False 0 undefined]
        silence_prefill_at_construction [of 64 100 False 0 undefined]
        silence_prefill_at_construction [of 128 32 False 0 undefined]
        silence_prefill_at_construction [of 128 48 False 0 undefined]
  by simp

section \<open>The input period adapter\<close>

lemma copy_from_jack_copied:
  "copied_from_server c so jo n w (snd (copy_from_jack c so jo n w))"
  by (cases "dyn_class c")
     (simp_all add: copied_from_server_def copy_from_jack_def get_buffer_def get_shadow_buffer_def
        memcpy_def memmove_def sizeof_sample_def Let_def mult.commute add.commute)

text \<open>
  C2. A call of \<^verbatim>\<open>next(frames)\<close> on an input period adapter, in the arithmetic of
  \<^verbatim>\<open>uint32_t\<close>. With \<open>shadow_frames > dst_frames\<close> it returns a negative error and copies
  nothing. Otherwise, if \<open>shadow_frames + (frames - jack_offset) \<ge> dst_frames\<close>, it copies
  exactly \<open>need = dst_frames - shadow_frames\<close> frames from the server buffer at
  \<open>jack_offset\<close> into the shadow buffer at \<open>shadow_frames\<close>, adds \<open>need\<close> to
  \<open>jack_offset\<close>, sets \<open>shadow_frames\<close> to 0 and returns 1; if not, it copies the
  remaining \<open>frames - jack_offset\<close> frames to the same place, adds them to
  \<open>shadow_frames\<close>, resets \<open>jack_offset\<close> to 0 and returns 0.
\<close>

theorem FramesInPortConverter_next_behaviour:
  "(case FramesInPortConverter_next p frames w of (r, p', w') \<Rightarrow>
      if shadow_frames p > dst_frames p then
        r < 0 \<and> p' = p \<and> heap w' = heap w
      else if shadow_frames p + (frames - jack_offset p) \<ge> dst_frames p then
        r = 1 \<and>
        p' = p\<lparr>jack_offset := jack_offset p + (dst_frames p - shadow_frames p), shadow_frames := 0\<rparr> \<and>
        copied_from_server (converter p) (shadow_frames p) (jack_offset p)
          (dst_frames p - shadow_frames p) w w'
      else
        r = 0 \<and>
        p' = p\<lparr>shadow_frames := shadow_frames p + (frames - jack_offset p), jack_offset := 0\<rparr> \<and>
        copied_from_server (converter p) (shadow_frames p) (jack_offset p)
          (frames - jack_offset p) w w')"
  by (simp add: FramesInPortConverter_next_def append_from_jack_def Let_def EINVAL_def
        jack_error_def copy_from_jack_copied)

theorem FramesInPortConverter_next_behaviour_witness:
  "(case FramesInPortConverter_next
           \<lparr>converter = example_shadow 0, dst_frames = 64, shadow_frames = 36, jack_offset = 0\<rparr>
           100 example_world of
      (r, p', w') \<Rightarrow>
        r = 1 \<and> jack_offset p' = 28 \<and> shadow_frames p' = 0 \<and>
        copied_from_server (example_shadow 0) 36 0 28 example_world w')"
  using FramesInPortConverter_next_behaviour
          [where p = "\<lparr>converter = example_shadow 0, dst_frames = 64, shadow_frames = 36, jack_offset = 0\<rparr>"
             and frames = 100 and w = example_world]
  by (simp add: split_beta)

section \<open>The output period adapter\<close>

lemma copy_to_jack_copied:
  "copied_to_server c so n w (copy_to_jack c (get_shadow_buffer_at c (ucast so)) 0 0 n w)"
  by (cases "dyn_class c")
     (simp_all add: copied_to_server_def copy_to_jack_def get_buffer_def get_shadow_buffer_def
        get_shadow_buffer_at_def memcpy_def memmove_def sizeof_sample_def Let_def mult.commute)

lemma memmove_moved_to_front:
  "moved_to_front c so n w
     (w\<lparr>heap := memmove (heap w) (get_shadow_buffer c) (get_shadow_buffer_at c (ucast so))
                  (ucast n * sample_size c)\<rparr>)"
  by (simp add: moved_to_front_def memmove_def get_shadow_buffer_def get_shadow_buffer_at_def)

lemma if_greater_max: "(if a > b then a else b) = max a (b :: 'a :: linorder)"
  by (auto simp: max_def)

lemma FramesOutPortConverter_next_error:
  "shadow_frames p > max frames (dst_frames p)
     \<Longrightarrow> FramesOutPortConverter_next p frames w =
           (- EINVAL, p,
            jack_error ''OutPort shadow buffer should not contain more frames (%lu) then requested (%lu)'' w)"
  unfolding FramesOutPortConverter_next_def if_greater_max by (simp only: if_True)

lemma FramesOutPortConverter_next_ok:
  "\<not> shadow_frames p > max frames (dst_frames p)
     \<Longrightarrow> FramesOutPortConverter_next p frames w =
          (let (p1, w1) =
             (if shadow_frames p + client_frames p \<ge> frames
              then
                (let w' = copy_to_jack (converter p)
                            (get_shadow_buffer_at (converter p) (ucast (shadow_offset p))) 0 0 frames w;
                     p' = p\<lparr>shadow_frames := shadow_frames p + client_frames p - frames,
                            shadow_offset := shadow_offset p + frames\<rparr>
                 in (if shadow_frames p' = 0 then p'\<lparr>shadow_offset := 0\<rparr> else p', w'))
              else (p\<lparr>shadow_frames := shadow_frames p + client_frames p\<rparr>, w));
               (p2, w2) =
             (if shadow_offset p1 \<noteq> 0 \<and> shadow_frames p1 \<le> frames
              then (p1\<lparr>shadow_offset := 0\<rparr>,
                    w1\<lparr>heap := memmove (heap w1) (get_shadow_buffer (converter p1))
                                    (get_shadow_buffer_at (converter p1) (ucast (shadow_offset p1)))
                                    (ucast (shadow_frames p1) * sample_size (converter p1))\<rparr>)
              else (p1, w1))
           in (1, p2\<lparr>client_frames := 0\<rparr>, w2))"
  unfolding FramesOutPortConverter_next_def if_greater_max by (simp only: if_False)

text \<open>
  C3. A call of \<^verbatim>\<open>next(frames)\<close> on an output period adapter, in the arithmetic of
  \<^verbatim>\<open>uint32_t\<close>. With \<open>shadow_frames > max frames dst_frames\<close> it returns a negative error
  and changes nothing else. Otherwise it returns 1 and: if
  \<open>shadow_frames + client_frames \<ge> frames\<close> it copies \<open>frames\<close> frames from the shadow
  buffer at \<open>shadow_offset\<close> to the server buffer, sets \<open>shadow_frames\<close> to
  \<open>shadow_frames + client_frames - frames\<close>, adds \<open>frames\<close> to \<open>shadow_offset\<close> and resets
  \<open>shadow_offset\<close> to 0 when \<open>shadow_frames\<close> has reached 0; if not, it adds
  \<open>client_frames\<close> to \<open>shadow_frames\<close> and copies nothing. After that, if
  \<open>shadow_offset > 0\<close> and \<open>shadow_frames \<le> frames\<close>, the remaining frames are moved to
  the front of the shadow buffer and \<open>shadow_offset\<close> becomes 0. In both cases
  \<open>client_frames\<close> is 0 at the end.
\<close>

theorem FramesOutPortConverter_next_behaviour:
  "(case FramesOutPortConverter_next p frames w of (r, p', w') \<Rightarrow>
      if shadow_frames p > max frames (dst_frames p) then
        r < 0 \<and> p' = p \<and> heap w' = heap w
      else
        let drain = (shadow_frames p + client_frames p \<ge> frames);
            sf1 = (if drain then shadow_frames p + client_frames p - frames
                   else shadow_frames p + client_frames p);
            so1 = (if drain then (if sf1 = 0 then 0 else shadow_offset p + frames)
                   else shadow_offset p);
            compact = (so1 \<noteq> 0 \<and> sf1 \<le> frames)
        in r = 1 \<and>
           p' = p\<lparr>shadow_frames := sf1, shadow_offset := (if compact then 0 else so1),
                   client_frames := 0\<rparr> \<and>
           (\<exists>w1. (if drain then copied_to_server (converter p) (shadow_offset p) frames w w1
                   else w1 = w) \<and>
                  (if compact then moved_to_front (converter p) so1 sf1 w1 w' else w' = w1)))"
proof (cases "shadow_frames p > max frames (dst_frames p)")
  case True
  then show ?thesis
    by (simp add: FramesOutPortConverter_next_error EINVAL_def jack_error_def)
next
  case False
  note bound = False
  show ?thesis
  proof (cases "shadow_frames p + client_frames p \<ge> frames")
    case True
    let ?w1 = "copy_to_jack (converter p)
                 (get_shadow_buffer_at (converter p) (ucast (shadow_offset p))) 0 0 frames w"
    have c: "copied_to_server (converter p) (shadow_offset p) frames w ?w1"
      by (rule copy_to_jack_copied)
    from bound True c show ?thesis
      by (auto simp: FramesOutPortConverter_next_ok Let_def memmove_moved_to_front
               intro!: exI [where x = ?w1])
  next
    case False
    with bound show ?thesis
      by (auto simp: FramesOutPortConverter_next_ok Let_def memmove_moved_to_front)
  qed
qed

theorem FramesOutPortConverter_next_behaviour_witness:
  "(case FramesOutPortConverter_next
           \<lparr>converter = example_shadow 1, dst_frames = 64, shadow_frames = 0, jack_offset = 0,
            shadow_offset = 0, client_frames = 128\<rparr>
           100 example_world of
      (r, p', w') \<Rightarrow>
        r = 1 \<and> shadow_frames p' = 28 \<and> shadow_offset p' = 0 \<and> client_frames p' = 0 \<and>
        (\<exists>w1. copied_to_server (example_shadow 1) 0 100 example_world w1 \<and>
               moved_to_front (example_shadow 1) 100 28 w1 w'))"
  using FramesOutPortConverter_next_behaviour
          [where p = "\<lparr>converter = example_shadow 1, dst_frames = 64, shadow_frames = 0,
                        jack_offset = 0, shadow_offset = 0, client_frames = 128\<rparr>"
             and frames = 100 and w = example_world]
  by (simp add: split_beta Let_def)

section \<open>The process callback\<close>

lemma FramesInPortConverter_next_ret:
  "fst (FramesInPortConverter_next q frames w) =
     (if shadow_frames q > dst_frames q then - EINVAL
      else if shadow_frames q + (frames - jack_offset q) \<ge> dst_frames q then 1 else 0)"
  by (simp add: FramesInPortConverter_next_def append_from_jack_def Let_def)

lemma FramesInPortConverter_next_port:
  "fst (snd (FramesInPortConverter_next q frames w)) =
     (if shadow_frames q > dst_frames q then q
      else if shadow_frames q + (frames - jack_offset q) \<ge> dst_frames q
      then q\<lparr>jack_offset := jack_offset q + (dst_frames q - shadow_frames q), shadow_frames := 0\<rparr>
      else q\<lparr>shadow_frames := shadow_frames q + (frames - jack_offset q), jack_offset := 0\<rparr>)"
  by (simp add: FramesInPortConverter_next_def append_from_jack_def Let_def)

lemma next_loop_le: "next_loop frames ps result w = (r, ps', w', evs) \<Longrightarrow> r \<le> result \<or> r < 0"
proof (induction ps arbitrary: result w r ps' w' evs)
  case Nil
  then show ?case by simp
next
  case (Cons p ps)
  obtain ret p1 w1 where pn: "port_next p frames w = (ret, p1, w1)"
    by (cases "port_next p frames w") auto
  show ?case
  proof (cases "ret < 0")
    case True
    with Cons.prems pn show ?thesis by simp
  next
    case False
    obtain r2 ps2 w2 evs2 where nl:
      "next_loop frames ps (if ret < result then ret else result) w1 = (r2, ps2, w2, evs2)"
      by (cases "next_loop frames ps (if ret < result then ret else result) w1") auto
    from Cons.prems pn False nl have "r = r2" by simp
    moreover from Cons.IH [OF nl] have "r2 \<le> (if ret < result then ret else result) \<or> r2 < 0" .
    ultimately show ?thesis by (auto split: if_splits)
  qed
qed

lemma in_ready_step:
  assumes "input_at C sf jo p" "sf \<le> C" "C \<le> sf + (S - jo)"
  shows "\<exists>p' w'. port_next p S w = (1, p', w') \<and> input_at C 0 (jo + (C - sf)) p'"
proof (cases p)
  case (InPort q)
  with assms have q: "dst_frames q = C" "shadow_frames q = sf" "jack_offset q = jo" by simp_all
  obtain r q' w' where n: "FramesInPortConverter_next q S w = (r, q', w')"
    by (cases "FramesInPortConverter_next q S w") auto
  from n have "r = fst (FramesInPortConverter_next q S w)" "q' = fst (snd (FramesInPortConverter_next q S w))"
    by simp_all
  with q assms(2,3) have "r = 1" "q' = q\<lparr>jack_offset := jo + (C - sf), shadow_frames := 0\<rparr>"
    by (simp_all add: FramesInPortConverter_next_ret FramesInPortConverter_next_port not_less [symmetric])
  with InPort n q show ?thesis by simp
next
  case (OutPort q)
  with assms show ?thesis by simp
qed

lemma in_wait_step:
  assumes "input_at C sf jo p" "sf \<le> C" "\<not> C \<le> sf + (S - jo)"
  shows "\<exists>p' w'. port_next p S w = (0, p', w') \<and> input_at C (sf + (S - jo)) 0 p'"
proof (cases p)
  case (InPort q)
  with assms have q: "dst_frames q = C" "shadow_frames q = sf" "jack_offset q = jo" by simp_all
  obtain r q' w' where n: "FramesInPortConverter_next q S w = (r, q', w')"
    by (cases "FramesInPortConverter_next q S w") auto
  from n have "r = fst (FramesInPortConverter_next q S w)" "q' = fst (snd (FramesInPortConverter_next q S w))"
    by simp_all
  with q assms(2,3) have "r = 0" "q' = q\<lparr>shadow_frames := sf + (S - jo), jack_offset := 0\<rparr>"
    by (simp_all add: FramesInPortConverter_next_ret FramesInPortConverter_next_port not_less [symmetric])
  with InPort n q show ?thesis by simp
next
  case (OutPort q)
  with assms show ?thesis by simp
qed

lemma next_loop_all_ready:
  assumes "inputs_at C sf jo ps" "sf \<le> C" "C \<le> sf + (S - jo)"
  shows "\<exists>ps' w'. next_loop S ps 1 w = (1, ps', w', replicate (length ps) (PortNext 1)) \<and>
                   inputs_at C 0 (jo + (C - sf)) ps' \<and> length ps' = length ps"
  using assms(1)
proof (induction ps arbitrary: w)
  case Nil
  then show ?case by (simp add: inputs_at_def)
next
  case (Cons p ps)
  then have p: "input_at C sf jo p" and ps: "inputs_at C sf jo ps"
    by (simp_all add: inputs_at_def)
  from in_ready_step [OF p assms(2,3)] obtain p' w1
    where s: "port_next p S w = (1, p', w1)" and p': "input_at C 0 (jo + (C - sf)) p'"
    by blast
  from Cons.IH [OF ps] obtain ps' w'
    where l: "next_loop S ps 1 w1 = (1, ps', w', replicate (length ps) (PortNext 1))"
      and ps': "inputs_at C 0 (jo + (C - sf)) ps'" "length ps' = length ps"
    by blast
  from s l p' ps' show ?case by (simp add: inputs_at_def)
qed

lemma next_loop_all_wait:
  assumes "inputs_at C sf jo ps" "sf \<le> C" "\<not> C \<le> sf + (S - jo)" "r0 = 0 \<or> r0 = 1"
  shows "\<exists>ps' w'. next_loop S ps r0 w = (if ps = [] then r0 else 0, ps', w', replicate (length ps) (PortNext 0)) \<and>
                   inputs_at C (sf + (S - jo)) 0 ps' \<and> length ps' = length ps"
  using assms(1,4)
proof (induction ps arbitrary: w r0)
  case Nil
  then show ?case by (simp add: inputs_at_def)
next
  case (Cons p ps)
  then have p: "input_at C sf jo p" and ps: "inputs_at C sf jo ps"
    by (simp_all add: inputs_at_def)
  from in_wait_step [OF p assms(2,3)] obtain p' w1
    where s: "port_next p S w = (0, p', w1)" and p': "input_at C (sf + (S - jo)) 0 p'"
    by blast
  have "(0::int) = 0 \<or> (0::int) = 1" by simp
  from Cons.IH [OF ps this] obtain ps' w'
    where l: "next_loop S ps 0 w1 = (if ps = [] then 0 else 0, ps', w', replicate (length ps) (PortNext 0))"
      and ps': "inputs_at C (sf + (S - jo)) 0 ps'" "length ps' = length ps"
    by blast
  from Cons.prems(2) have "(if (0::int) < r0 then 0 else r0) = 0" by auto
  with s l p' ps' show ?case by (simp add: inputs_at_def)
qed

lemma unat_add32:
  "unat (x :: 32 word) + unat y < 2 ^ 32 \<Longrightarrow> unat (x + y) = unat x + unat y"
  using unat_add_lem [of x y] by simp

lemma callbacks_append [simp]: "callbacks (a @ b) = callbacks a + callbacks b"
  by (simp add: callbacks_def)

lemma callbacks_Nil [simp]: "callbacks [] = 0"
  by (simp add: callbacks_def)

lemma callbacks_PortNext [simp]: "callbacks (replicate k (PortNext r)) = 0"
  by (induction k) (simp_all add: callbacks_def)

lemma callbacks_ready_pass [simp]: "callbacks (ready_pass k n i) = 1"
  by (simp add: ready_pass_def) (simp add: callbacks_def)

lemma callbacks_passes [simp]: "callbacks (concat (map (ready_pass k n) passes)) = length passes"
  by (induction passes) simp_all

lemma converter_loop_sync:
  assumes cb: "\<And>n c v. 0 \<le> fst (cb n c v)" and C0: "C \<noteq> 0" and nov: "unat C + unat S < 2 ^ 32"
  shows "InPorts conv \<noteq> [] \<Longrightarrow> inputs_at C sf jo (InPorts conv) \<Longrightarrow> sf \<le> C \<Longrightarrow> jo \<le> S
     \<Longrightarrow> bc_dst_frames conv = C
     \<Longrightarrow> \<exists>conv' w' sf' tr'.
           converter_loop cb S conv w tr = Some (InputsDone 0, conv', w', tr') \<and>
           callbacks tr' = callbacks tr + (unat sf + unat S - unat jo) div unat C \<and>
           inputs_at C sf' 0 (InPorts conv') \<and>
           unat sf' = (unat sf + unat S - unat jo) mod unat C \<and>
           length (InPorts conv') = length (InPorts conv) \<and>
           bc_dst_frames conv' = C \<and> silence_prefil conv' = silence_prefil conv \<and>
           length (OutPorts conv') = length (OutPorts conv)"
proof (induction "unat sf + unat S - unat jo" arbitrary: conv sf jo w tr rule: less_induct)
  case less
  let ?k = "length (InPorts conv)"
  let ?avail = "unat sf + unat S - unat jo"
  note ne = \<open>InPorts conv \<noteq> []\<close> and sync = \<open>inputs_at C sf jo (InPorts conv)\<close>
    and sfC = \<open>sf \<le> C\<close> and joS = \<open>jo \<le> S\<close> and dst = \<open>bc_dst_frames conv = C\<close>
  have C0': "0 < unat C" using C0 by (simp add: unat_gt_0)
  have ujo: "unat (S - jo) = unat S - unat jo" using joS by (simp add: unat_sub)
  have jo_le: "unat jo \<le> unat S" using joS by (simp add: word_le_nat_alt)
  have sf_le: "unat sf \<le> unat C" using sfC by (simp add: word_le_nat_alt)
  have usum: "unat (sf + (S - jo)) = ?avail"
  proof -
    have "unat sf + unat (S - jo) < 2 ^ 32" using ujo jo_le sf_le nov by simp
    then have "unat (sf + (S - jo)) = unat sf + unat (S - jo)" by (rule unat_add32)
    with ujo jo_le show ?thesis by simp
  qed
  show ?case
  proof (cases "C \<le> sf + (S - jo)")
    case True
    then have ready: "unat C \<le> ?avail" using usum by (simp add: word_le_nat_alt)
    from next_loop_all_ready [OF sync sfC True, of w] obtain ps' w1
      where nl: "next_loop S (InPorts conv) 1 w = (1, ps', w1, replicate ?k (PortNext 1))"
        and sync': "inputs_at C 0 (jo + (C - sf)) ps'" and len': "length ps' = ?k"
      by blast
    obtain cr w2 where cbr: "cb C (conv\<lparr>InPorts := ps'\<rparr>) w1 = (cr, w2)"
      by (cases "cb C (conv\<lparr>InPorts := ps'\<rparr>) w1") auto
    have cr: "\<not> cr < 0" using cb [of C "conv\<lparr>InPorts := ps'\<rparr>" w1] cbr by simp
    let ?conv2 = "conv\<lparr>InPorts := ps', OutPorts := map update_client_frames (OutPorts conv)\<rparr>"
    let ?jo' = "jo + (C - sf)"
    let ?tr2 = "tr @ ready_pass ?k C (w1, cr)"
    have uCsf: "unat (C - sf) = unat C - unat sf" using sfC by (simp add: unat_sub)
    have ujo': "unat ?jo' = unat jo + (unat C - unat sf)"
    proof -
      have "unat jo + unat (C - sf) < 2 ^ 32" using uCsf ready jo_le sf_le nov by simp
      then show ?thesis using uCsf by (simp add: unat_add32)
    qed
    have jo'S: "?jo' \<le> S" using ujo' ready jo_le sf_le by (simp add: word_le_nat_alt)
    have avail': "unat (0 :: 32 word) + unat S - unat ?jo' = ?avail - unat C"
      using ujo' ready jo_le sf_le by simp
    have dec: "unat (0 :: 32 word) + unat S - unat ?jo' < ?avail"
      using avail' ready C0' by simp
    have ne2: "InPorts ?conv2 \<noteq> []" using ne len' by auto
    have step: "converter_loop cb S conv w tr = converter_loop cb S ?conv2 w2 ?tr2"
      using nl cbr cr ne dst
      by (subst converter_loop.simps) (simp add: JackBufferConverter_next_def ready_pass_def)
    let ?n' = "unat (0 :: 32 word) + unat S - unat ?jo'"
    have "\<exists>conv' w' sf' tr'.
           converter_loop cb S ?conv2 w2 ?tr2 = Some (InputsDone 0, conv', w', tr') \<and>
           callbacks tr' = callbacks ?tr2 + ?n' div unat C \<and>
           inputs_at C sf' 0 (InPorts conv') \<and>
           unat sf' = ?n' mod unat C \<and>
           length (InPorts conv') = length (InPorts ?conv2) \<and>
           bc_dst_frames conv' = C \<and> silence_prefil conv' = silence_prefil ?conv2 \<and>
           length (OutPorts conv') = length (OutPorts ?conv2)"
    proof (rule less.hyps [OF dec ne2 _ _ jo'S])
      show "inputs_at C 0 ?jo' (InPorts ?conv2)" using sync' by simp
      show "(0 :: 32 word) \<le> C" by simp
      show "bc_dst_frames ?conv2 = C" using dst by simp
    qed
    then obtain conv' w' sf' tr' where
      r: "converter_loop cb S ?conv2 w2 ?tr2 = Some (InputsDone 0, conv', w', tr')"
      and n: "callbacks tr' = callbacks ?tr2 + ?n' div unat C"
      and post: "inputs_at C sf' 0 (InPorts conv')" "unat sf' = ?n' mod unat C"
        "length (InPorts conv') = length (InPorts ?conv2)" "bc_dst_frames conv' = C"
        "silence_prefil conv' = silence_prefil ?conv2" "length (OutPorts conv') = length (OutPorts ?conv2)"
      by blast
    have d: "?avail div unat C = Suc ((?avail - unat C) div unat C)"
      using ready C0' by (simp add: le_div_geq)
    have m: "?avail mod unat C = (?avail - unat C) mod unat C"
      using ready by (simp add: le_mod_geq)
    have "converter_loop cb S conv w tr = Some (InputsDone 0, conv', w', tr')"
      unfolding step r by simp
    moreover have "callbacks tr' = callbacks tr + ?avail div unat C"
      using n avail' d by simp
    moreover have "unat sf' = ?avail mod unat C" using post(2) avail' m by simp
    ultimately show ?thesis using post len' by auto
  next
    case False
    then have wait: "?avail < unat C" using usum by (simp add: word_le_nat_alt not_le)
    have "(1::int) = 0 \<or> (1::int) = 1" by simp
    from next_loop_all_wait [OF sync sfC False this, of w] ne obtain ps' w1
      where nl: "next_loop S (InPorts conv) 1 w = (0, ps', w1, replicate ?k (PortNext 0))"
        and sync': "inputs_at C (sf + (S - jo)) 0 ps'" and len': "length ps' = ?k"
      by auto
    have step: "converter_loop cb S conv w tr =
                  Some (InputsDone 0, conv\<lparr>InPorts := ps'\<rparr>, w1, tr @ replicate ?k (PortNext 0))"
      using nl ne
      by (subst converter_loop.simps) (simp add: JackBufferConverter_next_def)
    have "unat (sf + (S - jo)) = ?avail mod unat C" using usum wait by simp
    with step sync' len' dst show ?thesis
      by (intro exI [where x = "conv\<lparr>InPorts := ps'\<rparr>"] exI [where x = w1]
            exI [where x = "sf + (S - jo)"] exI [where x = "tr @ replicate ?k (PortNext 0)"])
         (simp add: wait)
  qed
qed

lemma next_loop_no_callback:
  "next_loop frames ps result w = (r, ps', w', evs) \<Longrightarrow> callbacks evs = 0"
proof (induction ps arbitrary: result w r ps' w' evs)
  case Nil
  then show ?case by simp
next
  case (Cons p ps)
  obtain ret p1 w1 where pn: "port_next p frames w = (ret, p1, w1)"
    by (cases "port_next p frames w") auto
  show ?case
  proof (cases "ret < 0")
    case True
    with Cons.prems pn show ?thesis by (auto simp: callbacks_def)
  next
    case False
    obtain r2 ps2 w2 evs2 where nl:
      "next_loop frames ps (if ret < result then ret else result) w1 = (r2, ps2, w2, evs2)"
      by (cases "next_loop frames ps (if ret < result then ret else result) w1") auto
    from Cons.prems pn False nl have "evs = PortNext ret # evs2" by simp
    with Cons.IH [OF nl] show ?thesis by (simp add: callbacks_def)
  qed
qed

lemma JackBufferConverter_next_no_callback:
  "JackBufferConverter_next frames ps w = (r, ps', w', evs) \<Longrightarrow> callbacks evs = 0"
  by (auto simp: JackBufferConverter_next_def next_loop_no_callback split: if_splits)

lemma converter_sync:
  assumes cb: "\<And>n c v. 0 \<le> fst (cb n c v)" and C0: "C \<noteq> 0" and nov: "unat C + unat S < 2 ^ 32"
    and ne: "InPorts conv \<noteq> []" and sync: "inputs_at C sf 0 (InPorts conv)" and sfC: "sf \<le> C"
    and dst: "bc_dst_frames conv = C"
  shows "\<exists>r conv' w' tr sf'.
           JackBufferConverter_converter cb S conv w = Some (r, conv', w', tr) \<and>
           callbacks tr = (unat sf + unat S) div unat C \<and>
           InPorts conv' \<noteq> [] \<and> inputs_at C sf' 0 (InPorts conv') \<and> sf' < C \<and>
           unat sf' = (unat sf + unat S) mod unat C \<and>
           bc_dst_frames conv' = C \<and> silence_prefil conv' = silence_prefil conv"
proof -
  have z: "(0 :: 32 word) \<le> S" by simp
  from converter_loop_sync [where cb = cb and w = w and tr = "[]", OF cb C0 nov ne sync sfC z dst]
  obtain conv1 w1 sf' tr1 where
    l: "converter_loop cb S conv w [] = Some (InputsDone 0, conv1, w1, tr1)"
    and n: "callbacks tr1 = callbacks [] + (unat sf + unat S - unat (0 :: 32 word)) div unat C"
    and post: "inputs_at C sf' 0 (InPorts conv1)"
      "unat sf' = (unat sf + unat S - unat (0 :: 32 word)) mod unat C"
      "length (InPorts conv1) = length (InPorts conv)" "bc_dst_frames conv1 = C"
      "silence_prefil conv1 = silence_prefil conv"
    by blast
  obtain ro ops w2 evs where o: "JackBufferConverter_next S (OutPorts conv1) w1 = (ro, ops, w2, evs)"
    by (cases "JackBufferConverter_next S (OutPorts conv1) w1") auto
  have nc: "callbacks evs = 0" by (rule JackBufferConverter_next_no_callback [OF o])
  have C0': "0 < unat C" using C0 by (simp add: unat_gt_0)
  have "unat sf' < unat C" using post(2) C0' by simp
  then have le: "sf' < C" by (simp add: word_less_nat_alt)
  have ne1: "InPorts conv1 \<noteq> []" using post(3) ne by auto
  show ?thesis
  proof (cases "ro < 0")
    case True
    with l o nc n post le ne1 show ?thesis
      by (auto simp: JackBufferConverter_converter_def)
  next
    case False
    with l o nc n post le ne1 show ?thesis
      by (auto simp: JackBufferConverter_converter_def)
  qed
qed

lemma div_step: "(a + b) div (c :: nat) = a div c + (a mod c + b) div c"
proof (cases "c = 0")
  case True
  then show ?thesis by simp
next
  case False
  have "a + b = (a mod c + b) + (a div c) * c" by simp
  then have "(a + b) div c = ((a mod c + b) + (a div c) * c) div c" by simp
  also have "\<dots> = a div c + (a mod c + b) div c" using False by (rule div_mult_self1)
  finally show ?thesis .
qed

lemma server_cycles_sync:
  assumes cb: "\<And>n c v. 0 \<le> fst (cb n c v)" and C0: "C \<noteq> 0" and nov: "unat C + unat S < 2 ^ 32"
  shows "InPorts conv \<noteq> [] \<Longrightarrow> inputs_at C sf 0 (InPorts conv) \<Longrightarrow> sf < C \<Longrightarrow> bc_dst_frames conv = C
     \<Longrightarrow> \<exists>rs conv' w' tr.
           server_cycles cb S hs conv w = Some (rs, conv', w', tr) \<and>
           callbacks tr = (unat sf + length hs * unat S) div unat C"
proof (induction hs arbitrary: conv sf w)
  case Nil
  then have "unat sf < unat C" by (simp add: word_less_nat_alt)
  then show ?case by simp
next
  case (Cons h hs)
  from Cons.prems(3) have le: "sf \<le> C" by simp
  from converter_sync [where cb = cb and w = "h w", OF cb C0 nov Cons.prems(1,2) le Cons.prems(4)]
  obtain r conv1 w1 tr1 sf1 where
    c: "JackBufferConverter_converter cb S conv (h w) = Some (r, conv1, w1, tr1)"
    and n1: "callbacks tr1 = (unat sf + unat S) div unat C"
    and post: "InPorts conv1 \<noteq> []" "inputs_at C sf1 0 (InPorts conv1)" "sf1 < C"
      "bc_dst_frames conv1 = C"
    and sf1: "unat sf1 = (unat sf + unat S) mod unat C"
    by blast
  from Cons.IH [OF post, of w1] obtain rs conv2 w2 tr2 where
    s: "server_cycles cb S hs conv1 w1 = Some (rs, conv2, w2, tr2)"
    and n2: "callbacks tr2 = (unat sf1 + length hs * unat S) div unat C"
    by blast
  have "(unat sf + unat S + length hs * unat S) div unat C =
        (unat sf + unat S) div unat C + ((unat sf + unat S) mod unat C + length hs * unat S) div unat C"
    by (rule div_step)
  with c s n1 n2 sf1 show ?case by (simp add: add.assoc)
qed

lemma server_cycles_first:
  assumes cb: "\<And>n c v. 0 \<le> fst (cb n c v)" and C0: "C \<noteq> 0" and nov: "unat C + unat S < 2 ^ 32"
    and ne: "InPorts conv \<noteq> []" and sync: "inputs_at C sf 0 (InPorts conv)" and sfC: "sf \<le> C"
    and dst: "bc_dst_frames conv = C" and hs: "hs \<noteq> []"
  shows "\<exists>rs conv' w' tr.
           server_cycles cb S hs conv w = Some (rs, conv', w', tr) \<and>
           callbacks tr = (length hs * unat S + unat sf) div unat C"
proof -
  from hs obtain h hs' where hs': "hs = h # hs'" by (cases hs) auto
  from converter_sync [where cb = cb and w = "h w", OF cb C0 nov ne sync sfC dst]
  obtain r conv1 w1 tr1 sf1 where
    c: "JackBufferConverter_converter cb S conv (h w) = Some (r, conv1, w1, tr1)"
    and n1: "callbacks tr1 = (unat sf + unat S) div unat C"
    and post: "InPorts conv1 \<noteq> []" "inputs_at C sf1 0 (InPorts conv1)" "sf1 < C"
      "bc_dst_frames conv1 = C"
    and sf1: "unat sf1 = (unat sf + unat S) mod unat C"
    by blast
  from server_cycles_sync [where cb = cb and w = w1 and hs = hs', OF cb C0 nov post] obtain rs conv2 w2 tr2 where
    s: "server_cycles cb S hs' conv1 w1 = Some (rs, conv2, w2, tr2)"
    and n2: "callbacks tr2 = (unat sf1 + length hs' * unat S) div unat C"
    by blast
  have "(unat sf + unat S + length hs' * unat S) div unat C =
        (unat sf + unat S) div unat C + ((unat sf + unat S) mod unat C + length hs' * unat S) div unat C"
    by (rule div_step)
  with c s n1 n2 sf1 hs' show ?thesis by (simp add: ac_simps)
qed

lemma FramesOutPortConverter_next_ret:
  "fst (FramesOutPortConverter_next q frames w) =
     (if shadow_frames q > max frames (dst_frames q) then - EINVAL else 1)"
  by (simp add: FramesOutPortConverter_next_def if_greater_max split_beta Let_def)

lemma port_next_ret: "fst (port_next p frames w) \<ge> 1 \<Longrightarrow> fst (port_next p frames w) = 1"
proof (cases p)
  case (InPort q)
  assume "fst (port_next p frames w) \<ge> 1"
  with InPort show ?thesis
    using FramesInPortConverter_next_ret [of q frames w]
    by (auto simp: split_beta EINVAL_def split: if_splits)
next
  case (OutPort q)
  assume "fst (port_next p frames w) \<ge> 1"
  with OutPort show ?thesis
    using FramesOutPortConverter_next_ret [of q frames w]
    by (auto simp: split_beta EINVAL_def split: if_splits)
qed

lemma next_loop_ready_events:
  "result \<le> 1 \<Longrightarrow> next_loop frames ps result w = (r, ps', w', evs) \<Longrightarrow> r \<ge> 1
     \<Longrightarrow> evs = replicate (length ps) (PortNext 1) \<and> length ps' = length ps \<and> result = 1"
proof (induction ps arbitrary: result w r ps' w' evs)
  case Nil
  then show ?case by auto
next
  case (Cons p ps)
  obtain ret p1 w1 where pn: "port_next p frames w = (ret, p1, w1)"
    by (cases "port_next p frames w") auto
  have nn: "\<not> ret < 0" using Cons.prems pn by (auto split: if_splits)
  obtain r2 ps2 w2 evs2 where nl:
    "next_loop frames ps (if ret < result then ret else result) w1 = (r2, ps2, w2, evs2)"
    by (cases "next_loop frames ps (if ret < result then ret else result) w1") auto
  from Cons.prems pn nn nl have eq: "r = r2" "ps' = p1 # ps2" "evs = PortNext ret # evs2" by simp_all
  have le: "(if ret < result then ret else result) \<le> 1" using Cons.prems(1) by simp
  from Cons.IH [OF le nl] Cons.prems(3) eq
  have ih: "evs2 = replicate (length ps) (PortNext 1)" "length ps2 = length ps"
    "(if ret < result then ret else result) = 1" by simp_all
  from ih(3) Cons.prems(1) have res: "result = 1" "ret \<ge> 1" by (auto split: if_splits)
  from res(2) pn port_next_ret [of p frames w] have "ret = 1" by simp
  with eq ih res show ?case by simp
qed

lemma port_next_ok: "input_adapter_ok p \<Longrightarrow> input_adapter_ok (fst (snd (port_next p frames w)))"
  by (cases p) (auto simp: split_beta FramesInPortConverter_next_port)

lemma next_loop_ok:
  "list_all input_adapter_ok ps \<Longrightarrow> next_loop frames ps result w = (r, ps', w', evs)
     \<Longrightarrow> list_all input_adapter_ok ps'"
proof (induction ps arbitrary: result w r ps' w' evs)
  case Nil
  then show ?case by auto
next
  case (Cons p ps)
  obtain ret p1 w1 where pn: "port_next p frames w = (ret, p1, w1)"
    by (cases "port_next p frames w") auto
  have p1: "input_adapter_ok p1" using port_next_ok [of p frames w] Cons.prems(1) pn by simp
  show ?case
  proof (cases "ret < 0")
    case True
    with Cons.prems pn p1 show ?thesis by auto
  next
    case False
    obtain r2 ps2 w2 evs2 where nl:
      "next_loop frames ps (if ret < result then ret else result) w1 = (r2, ps2, w2, evs2)"
      by (cases "next_loop frames ps (if ret < result then ret else result) w1") auto
    from Cons.prems pn False nl have "ps' = p1 # ps2" by simp
    moreover from Cons.IH [OF _ nl] Cons.prems(1) have "list_all input_adapter_ok ps2" by simp
    ultimately show ?thesis using p1 by simp
  qed
qed

lemma head_slack_decreases:
  assumes ok: "list_all input_adapter_ok ps" and ne: "ps \<noteq> []"
    and nl: "next_loop frames ps 1 w = (r, ps', w', evs)" and r: "r \<ge> 1"
  shows "head_slack frames ps' < head_slack frames ps"
proof -
  from ne obtain p rest where ps: "ps = p # rest" by (cases ps) auto
  with ok obtain q where p: "p = InPort q" and dst0: "dst_frames q \<noteq> 0"
    by (cases p) auto
  obtain ret q1 w1 where pn: "FramesInPortConverter_next q frames w = (ret, q1, w1)"
    by (cases "FramesInPortConverter_next q frames w") auto
  have "(1::int) \<le> 1" by simp
  from next_loop_ready_events [OF this nl r]
  have evs: "evs = replicate (length ps) (PortNext 1)" by simp
  have nn: "\<not> ret < 0" using nl r ps p pn by (auto split: if_splits)
  obtain r2 ps2 w2 evs2 where nl2:
    "next_loop frames rest (if ret < 1 then ret else 1) w1 = (r2, ps2, w2, evs2)"
    by (cases "next_loop frames rest (if ret < 1 then ret else 1) w1") auto
  from nl ps p pn nn nl2 have eq: "ps' = InPort q1 # ps2" "evs = PortNext ret # evs2" by simp_all
  with evs ps have ret: "ret = 1" by simp
  from pn have "ret = fst (FramesInPortConverter_next q frames w)"
    "q1 = fst (snd (FramesInPortConverter_next q frames w))" by simp_all
  with ret have ready: "\<not> shadow_frames q > dst_frames q"
      "dst_frames q \<le> shadow_frames q + (frames - jack_offset q)"
    and q1: "q1 = q\<lparr>jack_offset := jack_offset q + (dst_frames q - shadow_frames q), shadow_frames := 0\<rparr>"
    by (auto simp: FramesInPortConverter_next_ret FramesInPortConverter_next_port EINVAL_def
             split: if_splits)
  show ?thesis
  proof (cases "shadow_frames q = 0")
    case True
    with ready have le: "dst_frames q \<le> frames - jack_offset q" by simp
    have e: "frames - (jack_offset q + dst_frames q) = (frames - jack_offset q) - dst_frames q"
      by simp
    have "unat ((frames - jack_offset q) - dst_frames q) =
               unat (frames - jack_offset q) - unat (dst_frames q)"
      using le by (rule unat_sub)
    then have "unat (frames - (jack_offset q + dst_frames q)) =
               unat (frames - jack_offset q) - unat (dst_frames q)"
      by (simp only: e)
    moreover have "0 < unat (dst_frames q)" using dst0 by (simp add: unat_gt_0)
    moreover have "unat (dst_frames q) \<le> unat (frames - jack_offset q)"
      using le by (simp add: word_le_nat_alt)
    ultimately show ?thesis using True eq ps p q1 by simp
  next
    case False
    have "unat (frames - (jack_offset q + (dst_frames q - shadow_frames q))) < 2 ^ 32"
      using unsigned_less [of "frames - (jack_offset q + (dst_frames q - shadow_frames q))"]
      by simp
    with False eq ps p q1 show ?thesis by simp
  qed
qed

lemma callback_results_append [simp]:
  "callback_results (a @ b) = callback_results a @ callback_results b"
proof (induction a)
  case Nil
  then show ?case by simp
next
  case (Cons e a)
  then show ?case by (cases e) simp_all
qed

lemma callback_results_none: "callbacks tr = 0 \<Longrightarrow> callback_results tr = []"
proof (induction tr)
  case Nil
  then show ?case by simp
next
  case (Cons e tr)
  then show ?case by (cases e) (simp_all add: callbacks_def)
qed

lemma callback_results_ready_pass [simp]: "callback_results (ready_pass k n i) = [snd i]"
  by (simp add: ready_pass_def callback_results_none)

lemma callback_results_passes [simp]:
  "callback_results (concat (map (ready_pass k n) passes)) = map snd passes"
  by (induction passes) simp_all

lemma converter_loop_shape:
  "inputs_ok conv \<Longrightarrow>
     \<exists>ex conv' w' passes rest.
        converter_loop cb frames conv w tr =
          Some (ex, conv', w',
                tr @ concat (map (ready_pass (length (InPorts conv)) (bc_dst_frames conv)) passes) @ rest) \<and>
        callbacks rest = 0 \<and> (passes \<noteq> [] \<longrightarrow> InPorts conv \<noteq> []) \<and> inputs_ok conv' \<and>
        (OutPorts conv = [] \<longrightarrow> OutPorts conv' = []) \<and>
        list_all (\<lambda>i. 0 \<le> snd i) (butlast passes) \<and>
        (case ex of CallbackFailed r \<Rightarrow> r < 0 \<and> passes \<noteq> [] \<and> snd (last passes) = r
                  | InputsDone r \<Rightarrow> list_all (\<lambda>i. 0 \<le> snd i) passes)"
proof (induction "head_slack frames (InPorts conv)" arbitrary: conv w tr rule: less_induct)
  case less
  let ?k = "length (InPorts conv)"
  let ?dst = "bc_dst_frames conv"
  from less.prems have ok: "list_all input_adapter_ok (InPorts conv)" by (simp add: inputs_ok_def)
  obtain ret ips w1 evs where nx: "JackBufferConverter_next frames (InPorts conv) w = (ret, ips, w1, evs)"
    by (cases "JackBufferConverter_next frames (InPorts conv) w") auto
  have nc: "callbacks evs = 0" by (rule JackBufferConverter_next_no_callback [OF nx])
  have ok1: "list_all input_adapter_ok ips"
    using nx ok next_loop_ok [of "InPorts conv" frames 1 w ret ips w1 evs]
    by (auto simp: JackBufferConverter_next_def split: if_splits)
  show ?case
  proof (cases "ret \<ge> 1")
    case False
    have "converter_loop cb frames conv w tr =
            Some (InputsDone ret, conv\<lparr>InPorts := ips\<rparr>, w1,
                  tr @ concat (map (ready_pass ?k ?dst) []) @ evs)"
      using nx False by (subst converter_loop.simps) simp
    with nc ok1 show ?thesis
      by (intro exI [where x = "InputsDone ret"] exI [where x = "conv\<lparr>InPorts := ips\<rparr>"]
            exI [where x = w1] exI [where x = "[]"] exI [where x = evs])
         (simp add: inputs_ok_def)
  next
    case True
    have ne: "InPorts conv \<noteq> []" using nx True by (auto simp: JackBufferConverter_next_def split: if_splits)
    with nx have nl: "next_loop frames (InPorts conv) 1 w = (ret, ips, w1, evs)"
      by (simp add: JackBufferConverter_next_def)
    have "(1::int) \<le> 1" by simp
    from next_loop_ready_events [OF this nl True]
    have evs: "evs = replicate ?k (PortNext 1)" and len: "length ips = ?k" by simp_all
    have ok': "list_all input_adapter_ok ips" by (rule next_loop_ok [OF ok nl])
    have dec: "head_slack frames ips < head_slack frames (InPorts conv)"
      by (rule head_slack_decreases [OF ok ne nl True])
    let ?conv1 = "conv\<lparr>InPorts := ips\<rparr>"
    obtain cr w2 where cbr: "cb ?dst ?conv1 w1 = (cr, w2)"
      by (cases "cb ?dst ?conv1 w1") auto
    show ?thesis
    proof (cases "cr < 0")
      case True
      have "converter_loop cb frames conv w tr =
            Some (CallbackFailed cr, ?conv1, w2,
                  tr @ concat (map (ready_pass ?k ?dst) [(w1, cr)]) @ [])"
        using nx \<open>ret \<ge> 1\<close> cbr True evs
        by (subst converter_loop.simps) (simp add: ready_pass_def)
      then show ?thesis using True ne ok1
        by (intro exI [where x = "CallbackFailed cr"] exI [where x = ?conv1] exI [where x = w2]
              exI [where x = "[(w1, cr)]"] exI [where x = "[]"]) (simp add: inputs_ok_def)
    next
      case False
      let ?conv2 = "?conv1\<lparr>OutPorts := map update_client_frames (OutPorts ?conv1)\<rparr>"
      let ?tr2 = "tr @ ready_pass ?k ?dst (w1, cr)"
      have step: "converter_loop cb frames conv w tr = converter_loop cb frames ?conv2 w2 ?tr2"
        using nx \<open>ret \<ge> 1\<close> cbr False evs
        by (subst converter_loop.simps) (simp add: ready_pass_def)
      have dec2: "head_slack frames (InPorts ?conv2) < head_slack frames (InPorts conv)"
        using dec by simp
      have ok2: "inputs_ok ?conv2" using ok' by (simp add: inputs_ok_def)
      from less.hyps [OF dec2 ok2, of w2 ?tr2] obtain ex conv' w' passes rest where
        r: "converter_loop cb frames ?conv2 w2 ?tr2 =
              Some (ex, conv', w',
                    ?tr2 @ concat (map (ready_pass (length (InPorts ?conv2)) (bc_dst_frames ?conv2)) passes) @ rest)"
        and post: "callbacks rest = 0" "inputs_ok conv'" "OutPorts ?conv2 = [] \<longrightarrow> OutPorts conv' = []"
        and res: "list_all (\<lambda>i. 0 \<le> snd i) (butlast passes)"
          "(case ex of CallbackFailed r \<Rightarrow> r < 0 \<and> passes \<noteq> [] \<and> snd (last passes) = r
                     | InputsDone r \<Rightarrow> list_all (\<lambda>i. 0 \<le> snd i) passes)"
        by blast
      have "converter_loop cb frames conv w tr =
              Some (ex, conv', w', tr @ concat (map (ready_pass ?k ?dst) ((w1, cr) # passes)) @ rest)"
        unfolding step r using len by simp
      moreover have "list_all (\<lambda>i. 0 \<le> snd i) (butlast ((w1, cr) # passes))"
        using res(1) False by simp
      moreover have "(case ex of CallbackFailed r \<Rightarrow> r < 0 \<and> (w1, cr) # passes \<noteq> [] \<and>
                                    snd (last ((w1, cr) # passes)) = r
                     | InputsDone r \<Rightarrow> list_all (\<lambda>i. 0 \<le> snd i) ((w1, cr) # passes))"
        using res(2) False by (cases ex) simp_all
      ultimately show ?thesis using post ne
        by (intro exI [where x = ex] exI [where x = conv'] exI [where x = w']
              exI [where x = "(w1, cr) # passes"] exI [where x = rest]) simp
    qed
  qed
qed

lemma converter_shape:
  assumes "inputs_ok conv"
  shows "\<exists>r conv' w' passes rest.
           JackBufferConverter_converter cb frames conv w =
             Some (r, conv', w',
                   concat (map (ready_pass (length (InPorts conv)) (bc_dst_frames conv)) passes) @ rest) \<and>
           callbacks rest = 0 \<and> (passes \<noteq> [] \<longrightarrow> InPorts conv \<noteq> []) \<and> inputs_ok conv' \<and>
           list_all (\<lambda>i. 0 \<le> snd i) (butlast passes) \<and>
           (OutPorts conv = [] \<longrightarrow>
              r < 0 \<and> r = (if passes \<noteq> [] \<and> snd (last passes) < 0 then snd (last passes) else - 1))"
proof -
  from converter_loop_shape [OF assms, of cb frames w "[]"] obtain ex conv1 w1 passes rest where
    l: "converter_loop cb frames conv w [] =
          Some (ex, conv1, w1,
                [] @ concat (map (ready_pass (length (InPorts conv)) (bc_dst_frames conv)) passes) @ rest)"
    and post: "callbacks rest = 0" "passes \<noteq> [] \<longrightarrow> InPorts conv \<noteq> []" "inputs_ok conv1"
      "OutPorts conv = [] \<longrightarrow> OutPorts conv1 = []"
      "list_all (\<lambda>i. 0 \<le> snd i) (butlast passes)"
    and res: "(case ex of CallbackFailed r \<Rightarrow> r < 0 \<and> passes \<noteq> [] \<and> snd (last passes) = r
                     | InputsDone r \<Rightarrow> list_all (\<lambda>i. 0 \<le> snd i) passes)"
    by blast
  show ?thesis
  proof (cases ex)
    case (CallbackFailed cr)
    with l post res show ?thesis
      by (intro exI [where x = cr] exI [where x = conv1] exI [where x = w1]
            exI [where x = passes] exI [where x = rest])
         (simp add: JackBufferConverter_converter_def)
  next
    case (InputsDone ret)
    obtain ro ops w2 evs where o: "JackBufferConverter_next frames (OutPorts conv1) w1 = (ro, ops, w2, evs)"
      by (cases "JackBufferConverter_next frames (OutPorts conv1) w1") auto
    have nc: "callbacks evs = 0" by (rule JackBufferConverter_next_no_callback [OF o])
    have e: "OutPorts conv = [] \<longrightarrow> ro = - 1"
      using o post(4) by (auto simp: JackBufferConverter_next_def)
    have nonneg: "list_all (\<lambda>i. 0 \<le> snd i) passes" using res InputsDone by simp
    have last_ok: "passes \<noteq> [] \<Longrightarrow> \<not> snd (last passes) < 0"
    proof -
      assume "passes \<noteq> []"
      then have "last passes \<in> set passes" by simp
      with nonneg have "0 \<le> snd (last passes)" by (simp add: list_all_iff)
      then show ?thesis by simp
    qed
    let ?r = "if ro < 0 then ro else ret"
    let ?conv2 = "conv1\<lparr>OutPorts := ops\<rparr>"
    have "JackBufferConverter_converter cb frames conv w =
            Some (?r, ?conv2, w2,
                  concat (map (ready_pass (length (InPorts conv)) (bc_dst_frames conv)) passes)
                    @ (rest @ evs))"
      using l InputsDone o by (simp add: JackBufferConverter_converter_def)
    with post nc e last_ok show ?thesis
      by (intro exI [where x = ?r] exI [where x = ?conv2] exI [where x = w2]
            exI [where x = passes] exI [where x = "rest @ evs"])
         (auto simp: inputs_ok_def)
  qed
qed

lemma constructed_inputs:
  "constructed S conv \<Longrightarrow>
     inputs_at (bc_dst_frames conv) (silence_prefil conv) 0 (InPorts conv) \<and>
     calculate_silence_prefill (bc_dst_frames conv) S = Some (silence_prefil conv)"
proof (induction rule: constructed.induct)
  case (fresh server_period arg_is_null registered dstf conv)
  then show ?case
    by (auto simp: JackBufferConverter_new_def inputs_at_def split: option.splits if_splits)
next
  case (port_added server_period conv is_output sm pt flags storage dst_type init_output_silence w
          res conv' w')
  have c: "jack_port_create_convert is_output sm pt flags storage dst_type init_output_silence
             (Some conv) w = (res, Some conv', w')" by fact
  have "inputs_at (bc_dst_frames conv) (silence_prefil conv) 0 (InPorts conv') \<and>
        bc_dst_frames conv' = bc_dst_frames conv \<and> silence_prefil conv' = silence_prefil conv"
    using c port_added.IH
    by (cases dst_type)
       (auto simp: jack_port_create_convert_def Let_def split_beta add_def inputs_at_def
                   FramesInPortConverter_new_def
             split: if_splits)
  with port_added.IH show ?case by simp
qed

lemma inputs_at_ok: "inputs_at C sf jo ps \<Longrightarrow> C \<noteq> 0 \<Longrightarrow> list_all input_adapter_ok ps"
proof (induction ps)
  case Nil
  then show ?case by simp
next
  case (Cons p ps)
  then show ?case by (cases p) (auto simp: inputs_at_def)
qed

lemma constructed_inputs_ok:
  "constructed S conv \<Longrightarrow> bc_dst_frames conv \<noteq> 0 \<Longrightarrow> inputs_ok conv"
  using constructed_inputs [of S conv] inputs_at_ok [of "bc_dst_frames conv" "silence_prefil conv" 0 "InPorts conv"]
  by (simp add: inputs_ok_def)

lemma client_callback_count_aux:
  assumes con: "constructed S0 conv" and ne: "InPorts conv \<noteq> []"
    and C0: "bc_dst_frames conv \<noteq> 0"
    and nov: "unat (bc_dst_frames conv) + unat S < 2 ^ 32"
    and cb: "\<forall>n c v. 0 \<le> fst (callback n c v)"
    and hs: "hs \<noteq> []"
  shows "\<exists>rs conv' w' tr.
           server_cycles callback S hs conv w = Some (rs, conv', w', tr) \<and>
           callbacks tr = (length hs * unat S + unat (silence_prefil conv)) div unat (bc_dst_frames conv)"
proof -
  from constructed_inputs [OF con]
  have sync: "inputs_at (bc_dst_frames conv) (silence_prefil conv) 0 (InPorts conv)"
    and pre: "calculate_silence_prefill (bc_dst_frames conv) S0 = Some (silence_prefil conv)"
    by simp_all
  have le: "silence_prefil conv \<le> bc_dst_frames conv"
    by (rule calculate_silence_prefill_le [OF pre])
  have cb': "\<And>n c v. 0 \<le> fst (callback n c v)" using cb by simp
  show ?thesis
    by (rule server_cycles_first [where cb = callback, OF cb' C0 nov ne sync le refl hs])
qed

section \<open>The example converter\<close>

lemma example_constructed: "constructed 100 example_converter"
proof -
  let ?c0 = "\<lparr>InPorts = [], OutPorts = [], bc_dst_frames = 64, silence_prefil = 64\<rparr>"
  let ?pin = "InPort \<lparr>converter = example_shadow 0, dst_frames = 64, shadow_frames = 64, jack_offset = 0\<rparr>"
  let ?c1 = "?c0\<lparr>InPorts := [?pin]\<rparr>"
  let ?w1 = "silence_shadow (example_shadow 0) 64 example_world"
  have 0: "JackBufferConverter_new 100 False 0 64 = Inr ?c0"
    by (simp add: JackBufferConverter_new_def calculate_silence_prefill_def)
  have 1: "jack_port_create_convert 2 undefined 0 1 (0x100000 * (of_nat 0 + 1) + 4)
             JACK_PORT_CONV_FMT_DEFAULT True (Some ?c0) example_world
           = (Some (Frames ?pin), Some ?c1, ?w1)"
    by (simp add: jack_port_create_convert_def FramesInPortConverter_new_def add_def
          example_shadow_def)
  have 2: "jack_port_create_convert 2 undefined 1 2 (0x100000 * (of_nat 1 + 1) + 4)
             JACK_PORT_CONV_FMT_DEFAULT True (Some ?c1) ?w1
           = (Some (Frames (hd (OutPorts example_converter))), Some example_converter, ?w1)"
    by (simp add: jack_port_create_convert_def FramesOutPortConverter_new_def add_def Let_def
          example_shadow_def example_converter_def)
  from constructed.fresh [OF 0] have "constructed 100 ?c0" .
  from constructed.port_added [OF this 1] have "constructed 100 ?c1" .
  from constructed.port_added [OF this 2] show ?thesis .
qed


section \<open>How often the client callback runs\<close>

text \<open>
  C1, as the code has it. A buffer converter built through the interface for the client
  period \<open>C\<close>, with at least one input adapter, is driven for \<open>T \<ge> 1\<close> server periods of
  \<open>S\<close> frames each, and the client callback never returns a negative value. Then every
  period returns and the client callback has been invoked exactly
  \<open>(T * S + silence_prefil) div C\<close> times in all. \<open>C\<close> is not 0 and \<open>C + S\<close> does not wrap
  around in 32 bits, as is the case for all periods a shadow buffer can hold. Whether
  there are output adapters, whether the server buffers are null, and under which server
  period the converter was built, makes no difference to the count.
\<close>

theorem client_callback_count:
  assumes "constructed S0 conv" and "InPorts conv \<noteq> []"
    and "bc_dst_frames conv \<noteq> 0"
    and "unat (bc_dst_frames conv) + unat S < 2 ^ 32"
    and "\<forall>n c v. 0 \<le> fst (callback n c v)"
    and "hs \<noteq> []"
  shows "\<exists>rs conv' w' tr.
           server_cycles callback S hs conv w = Some (rs, conv', w', tr) \<and>
           callbacks tr = (length hs * unat S + unat (silence_prefil conv)) div unat (bc_dst_frames conv)"
  using assms by (rule client_callback_count_aux)

theorem client_callback_count_witness:
  "constructed 100 example_converter \<and> InPorts example_converter \<noteq> [] \<and>
   (\<exists>rs conv' w' tr.
      server_cycles example_client 100 (replicate 16 id) example_converter example_world
        = Some (rs, conv', w', tr) \<and>
      callbacks tr = 26)"
proof -
  have a: "InPorts example_converter \<noteq> []" "bc_dst_frames example_converter \<noteq> 0"
    "unat (bc_dst_frames example_converter) + unat (100 :: 32 word) < 2 ^ 32"
    by (simp_all add: example_converter_def)
  have b: "\<forall>n c v. 0 \<le> fst (example_client n c v)" by (simp add: example_client_def)
  have c: "replicate 16 (id :: world \<Rightarrow> world) \<noteq> []" by simp
  from client_callback_count [OF example_constructed a b c, of example_world] a(1) example_constructed
  show ?thesis by (simp add: example_converter_def)
qed

text \<open>
  C1 as the specification states it fails for a run of no server period at all: before the
  first server period the client callback has not run, while the formula gives
  \<open>(0 * 100 + 64) div 64 = 1\<close> for the example converter: the block of silence is
  counted before it has been handed to the client.
\<close>

theorem client_callback_count_counterexample:
  "constructed 100 example_converter \<and>
   callback_count (server_cycles example_client 100 [] example_converter example_world) = Some 0 \<and>
   (0 * unat (100 :: 32 word) + unat (silence_prefil example_converter))
     div unat (bc_dst_frames example_converter) = 1"
  using example_constructed by (simp add: callback_count_def example_converter_def)



text \<open>
  C10, as the code has it. A call of the process callback on a converter without output
  adapters (and with an input list of input adapters with a client period other than 0)
  returns, and its result is negative. Of the values the invocations of the client
  callback returned during this call, all but the last are not negative; if the last one
  is negative, it is the result of the process callback, and in every other case (no
  invocation at all, or every invocation succeeded) the result is \<open>-1\<close>.
\<close>

theorem no_output_adapter_fails:
  assumes "inputs_ok conv" and "OutPorts conv = []"
  shows "\<exists>r conv' w' tr.
           JackBufferConverter_converter callback frames conv w = Some (r, conv', w', tr) \<and>
           r < 0 \<and>
           list_all (\<lambda>x. 0 \<le> x) (butlast (callback_results tr)) \<and>
           r = (if callback_results tr \<noteq> [] \<and> last (callback_results tr) < 0
                then last (callback_results tr) else - 1)"
proof -
  from converter_shape [OF assms(1), of callback frames w] assms(2)
  obtain r conv' w' passes rest where
    c: "JackBufferConverter_converter callback frames conv w =
          Some (r, conv', w',
                concat (map (ready_pass (length (InPorts conv)) (bc_dst_frames conv)) passes) @ rest)"
    and rest: "callbacks rest = 0"
    and nonneg: "list_all (\<lambda>i. 0 \<le> snd i) (butlast passes)"
    and r: "r < 0" "r = (if passes \<noteq> [] \<and> snd (last passes) < 0 then snd (last passes) else - 1)"
    by blast
  let ?tr = "concat (map (ready_pass (length (InPorts conv)) (bc_dst_frames conv)) passes) @ rest"
  have res: "callback_results ?tr = map snd passes"
    using rest by (simp add: callback_results_none)
  have "list_all (\<lambda>x. 0 \<le> x) (butlast (map snd passes))"
    using nonneg by (simp add: map_butlast [symmetric] list_all_iff)
  moreover have "r = (if map snd passes \<noteq> [] \<and> last (map snd passes) < 0
                      then last (map snd passes) else - 1)"
    using r(2) by (cases "passes = []") (simp_all add: last_map)
  ultimately show ?thesis using c r(1) res by simp
qed

theorem no_output_adapter_fails_witness:
  "inputs_ok (example_converter\<lparr>OutPorts := []\<rparr>) \<and>
   OutPorts (example_converter\<lparr>OutPorts := []\<rparr>) = [] \<and>
   (\<exists>conv' w' tr.
      JackBufferConverter_converter example_client 100 (example_converter\<lparr>OutPorts := []\<rparr>) example_world
        = Some (- 1, conv', w', tr) \<and>
      list_all (\<lambda>x. 0 \<le> x) (butlast (callback_results tr)) \<and>
      - 1 = (if callback_results tr \<noteq> [] \<and> last (callback_results tr) < 0
             then last (callback_results tr) else - 1))"
proof -
  have a: "inputs_ok (example_converter\<lparr>OutPorts := []\<rparr>)"
    by (simp add: inputs_ok_def example_converter_def)
  have b: "OutPorts (example_converter\<lparr>OutPorts := []\<rparr>) = []" by simp
  have e: "map_option fst
             (JackBufferConverter_converter example_client 100 (example_converter\<lparr>OutPorts := []\<rparr>)
                example_world) = Some (- 1)"
    by code_simp
  from no_output_adapter_fails [OF a b, of example_client 100 example_world]
  obtain r conv' w' tr where
    c: "JackBufferConverter_converter example_client 100 (example_converter\<lparr>OutPorts := []\<rparr>) example_world
       = Some (r, conv', w', tr)"
    and n: "list_all (\<lambda>x. 0 \<le> x) (butlast (callback_results tr))"
    and r: "r = (if callback_results tr \<noteq> [] \<and> last (callback_results tr) < 0
                 then last (callback_results tr) else - 1)"
    by blast
  from c e have r1: "r = - 1" by simp
  have "JackBufferConverter_converter example_client 100 (example_converter\<lparr>OutPorts := []\<rparr>)
          example_world = Some (- 1, conv', w', tr)"
    using c r1 by simp
  moreover have "- 1 = (if callback_results tr \<noteq> [] \<and> last (callback_results tr) < 0
                        then last (callback_results tr) else - 1)"
    using r r1 by simp
  ultimately show ?thesis using a b n
    by (intro conjI exI [where x = conv'] exI [where x = w'] exI [where x = tr])
qed

text \<open>
  C10 as the specification states it fails when the client callback fails: with the
  client that returns \<open>-5\<close> the process callback of the example converter
  without its output adapter returns \<open>-5\<close>, not \<open>-1\<close>: the first pass of the loop
  reaches the client callback, and its negative result is returned at once.
\<close>

theorem no_output_adapter_fails_counterexample:
  "OutPorts (example_converter\<lparr>OutPorts := []\<rparr>) = [] \<and>
   map_option fst
     (JackBufferConverter_converter failing_client 100 (example_converter\<lparr>OutPorts := []\<rparr>)
        example_world) = Some (- 5)"
  by code_simp

section \<open>Alignment of the pointer returned by get\<close>

lemma mask_31: "(31 :: 64 word) = mask 5"
  by (simp add: mask_eq_exp_minus_1)

lemma aligned_add: "(A :: 64 word) AND 31 = 0 \<Longrightarrow> (A + x) AND 31 = x AND 31"
proof -
  assume a: "A AND 31 = 0"
  have "(A + x) AND mask 5 = ((A AND mask 5) + x) AND mask 5" by (simp only: mask_eqs)
  also have "\<dots> = x AND mask 5" using a by (simp add: mask_31)
  finally show ?thesis by (simp add: mask_31)
qed

lemma GET_32BYTE_ALIGN_BUFFER_aligned: "is_32byte_aligned (GET_32BYTE_ALIGN_BUFFER buf)"
proof -
  have "(buf AND NOT (32 - 1)) AND 31 = 0" by (simp add: and.assoc)
  from aligned_add [OF this, of 32] show ?thesis
    by (simp add: is_32byte_aligned_def GET_32BYTE_ALIGN_BUFFER_def BUF_ALIGN_MASK_def
          BUF_ALIGN_BYTES_def)
qed

lemma is_32byte_aligned_add:
  "is_32byte_aligned A \<Longrightarrow> is_32byte_aligned (A + x) = is_32byte_aligned x"
  by (simp add: is_32byte_aligned_def BUF_ALIGN_BYTES_def aligned_add)

lemma is_32byte_aligned_null: "is_32byte_aligned 0"
  by (simp add: is_32byte_aligned_def)

text \<open>
  C7, as the code has it. For a Shadow or Integer converter whose shadow pointer was set by
  the constructor: \<^verbatim>\<open>get\<close> on the converter itself and on an input period adapter
  returns a 32-byte aligned pointer (the start of the shadow buffer, or null). On an output
  period adapter \<^verbatim>\<open>get\<close> returns null when \<open>frames \<noteq> dst_frames\<close>, and otherwise the
  start of the shadow buffer plus
  \<open>(shadow_offset + shadow_frames + client_frames) * sample_size\<close> bytes, which is 32-byte
  aligned exactly when this number of bytes is.
\<close>

theorem get_alignment:
  assumes "shadow_of h = Some c" and "aligned_buffer c = GET_32BYTE_ALIGN_BUFFER storage"
  shows "(\<not> is_output_adapter h \<longrightarrow> is_32byte_aligned (fst (IJackPortConverter_get h frames w))) \<and>
         (\<forall>q. h = Frames (OutPort q) \<longrightarrow>
            is_32byte_aligned (fst (IJackPortConverter_get h frames w)) =
              (frames \<noteq> dst_frames q \<or>
               is_32byte_aligned
                 (ucast (shadow_offset q + shadow_frames q + client_frames q) * sample_size c)))"
proof -
  have al: "is_32byte_aligned (aligned_buffer c)"
    using assms(2) GET_32BYTE_ALIGN_BUFFER_aligned by simp
  show ?thesis
  proof (cases h)
    case (Forward f)
    with assms show ?thesis by simp
  next
    case (Shadow c')
    with assms al show ?thesis
      by (cases "dyn_class c'")
         (auto simp: Shadow_get_def copy_from_jack_def get_shadow_buffer_def Let_def
                     is_32byte_aligned_null)
  next
    case (Frames p)
    show ?thesis
    proof (cases p)
      case (InPort q)
      with Frames assms al show ?thesis
        by (auto simp: FramesPortConverter_get_def get_shadow_buffer_def is_32byte_aligned_null)
    next
      case (OutPort q)
      with Frames assms al show ?thesis
        by (auto simp: FramesOutPortConverter_get_def get_shadow_buffer_at_def
                       get_shadow_buffer_def is_32byte_aligned_null is_32byte_aligned_add)
    qed
  qed
qed

theorem get_alignment_witness:
  "shadow_of (Frames (OutPort example_output)) = Some (example_shadow 1) \<and>
   is_32byte_aligned (fst (IJackPortConverter_get (Frames (OutPort example_output)) 64 example_world))"
proof -
  have a: "shadow_of (Frames (OutPort example_output)) = Some (example_shadow 1)"
    by (simp add: example_output_def FramesOutPortConverter_new_def)
  have b: "aligned_buffer (example_shadow 1) = GET_32BYTE_ALIGN_BUFFER (0x100000 * (of_nat 1 + 1) + 4)"
    by (simp add: example_shadow_def ShadowBufferJackPortConverter_new_def)
  from get_alignment [OF a b, of 64 example_world] a show ?thesis
    by (simp add: example_output_def FramesOutPortConverter_new_def is_32byte_aligned_null)
qed

text \<open>
  C7 as the specification states it fails in a state the example converter reaches after
  its first server period of 100 frames: the output adapter
  holds 28 frames, and \<^verbatim>\<open>get(64)\<close> on it returns the start of the shadow buffer
  (\<open>0x200020\<close>) plus \<open>28 * 4\<close> bytes, which is not a multiple of 32.
\<close>

theorem get_alignment_counterexample:
  "first_output_get 64 (JackBufferConverter_converter example_client 100 example_converter example_world)
     = Some 0x200090 \<and>
   \<not> is_32byte_aligned 0x200090"
  by code_simp

section \<open>get and set with a frame count other than the client period\<close>

lemma period_adapter_get_wrong_frames:
  "frames \<noteq> dst_frames p \<Longrightarrow>
     FramesPortConverter_get p frames w =
       (0, jack_error ''Requested frames (%lu) differ from configuration (%lu)'' w)"
  "frames \<noteq> dst_frames q \<Longrightarrow>
     FramesOutPortConverter_get q frames w =
       (0, jack_error ''Requested frames (%lu) differ from configuration (%lu)'' w)"
  by (simp_all add: FramesPortConverter_get_def FramesOutPortConverter_get_def)

lemma input_adapter_set_logs_only:
  "heap (FramesInPortConverter_set p src frames w) = heap w \<and>
   jack_port_get_buffer (FramesInPortConverter_set p src frames w) = jack_port_get_buffer w \<and>
   errors (FramesInPortConverter_set p src frames w) =
     errors w @ [''Not allowed to call set() for input ports'']"
  by (simp add: FramesInPortConverter_set_def jack_error_def)

text \<open>
  C8 fails for \<^verbatim>\<open>set\<close> on an output adapter. The fresh output adapter of the example has
  \<open>dst_frames = 64\<close>; \<^verbatim>\<open>set(0x5000, 32)\<close> logs the error and then copies all the same:
  the first byte of the shadow buffer (at \<open>0x200020\<close>) was 0 and is \<open>0x7F\<close> afterwards.
\<close>

theorem FramesOutPortConverter_set_wrong_frames_copies:
  "(32 :: 32 word) \<noteq> dst_frames example_output \<and>
   errors (FramesOutPortConverter_set example_output 0x5000 32 client_world) =
     [''Requested frames (%lu) differ from configuration (%lu)''] \<and>
   heap client_world 0x200020 = 0 \<and>
   heap (FramesOutPortConverter_set example_output 0x5000 32 client_world) 0x200020 = 0x7F"
  by (simp add: FramesOutPortConverter_set_def example_output_def FramesOutPortConverter_new_def
        client_world_def example_world_def example_shadow_def ShadowBufferJackPortConverter_new_def
        GET_32BYTE_ALIGN_BUFFER_def BUF_ALIGN_MASK_def BUF_ALIGN_BYTES_def sizeof_sample_def
        get_shadow_buffer_at_def get_shadow_buffer_def jack_error_def memcpy_def memmove_def Let_def)

section \<open>set with the pointer that get returned\<close>

text \<open>
  C9, as the code has it. After \<^verbatim>\<open>get(frames)\<close> has returned \<open>p\<close>, and whatever the
  world \<open>w2\<close> is in which \<^verbatim>\<open>set(p, frames)\<close> is called then (the client may have written
  to memory): on a Forward converter, and on an output period adapter when
  \<open>frames = dst_frames\<close>, the call changes nothing; on an input period adapter it logs an
  error and changes nothing else; on a Shadow or Integer converter it is
  \<^verbatim>\<open>copy_to_jack(p, 0, 0, frames)\<close>, which copies or converts \<open>frames\<close> samples from \<open>p\<close>
  into the server buffer unless that is null.
\<close>

theorem set_of_get_pointer:
  assumes "IJackPortConverter_get h frames w = (p, h', w1)"
  shows "(case h' of
            Forward c \<Rightarrow> IJackPortConverter_set h' p frames w2 = (h', w2)
          | Shadow c \<Rightarrow> IJackPortConverter_set h' p frames w2 = (h', copy_to_jack c p 0 0 frames w2)
          | Frames (InPort q) \<Rightarrow>
              IJackPortConverter_set h' p frames w2 =
                (h', jack_error ''Not allowed to call set() for input ports'' w2)
          | Frames (OutPort q) \<Rightarrow>
              frames = dst_frames q \<longrightarrow> IJackPortConverter_set h' p frames w2 = (h', w2))"
proof (cases h)
  case (Forward c)
  with assms show ?thesis
    by (auto simp: Forward_get_def Forward_set_def Let_def)
next
  case (Shadow c)
  with assms show ?thesis
    by (auto simp: Shadow_set_def split: prod.splits)
next
  case (Frames fp)
  show ?thesis
  proof (cases fp)
    case (InPort q)
    with Frames assms show ?thesis
      by (auto simp: FramesInPortConverter_set_def split: prod.splits)
  next
    case (OutPort q)
    with Frames assms show ?thesis
      by (auto simp: FramesOutPortConverter_get_def FramesOutPortConverter_set_def Let_def
               split: prod.splits if_splits)
  qed
qed

theorem set_of_get_pointer_witness:
  "IJackPortConverter_get (Forward \<lparr>port = 0, buffer = 0\<rparr>) 64 example_world
     = (0x10000, Forward \<lparr>port = 0, buffer = 0x10000\<rparr>, example_world) \<and>
   IJackPortConverter_set (Forward \<lparr>port = 0, buffer = 0x10000\<rparr>) 0x10000 64 client_world
     = (Forward \<lparr>port = 0, buffer = 0x10000\<rparr>, client_world)"
proof -
  have g: "IJackPortConverter_get (Forward \<lparr>port = 0, buffer = 0\<rparr>) 64 example_world
     = (0x10000, Forward \<lparr>port = 0, buffer = 0x10000\<rparr>, example_world)"
    by (simp add: Forward_get_def get_buffer_def example_world_def)
  from set_of_get_pointer [OF g, of client_world] g show ?thesis by simp
qed

text \<open>
  C9 as the specification states it fails on a Shadow converter: \<^verbatim>\<open>get(1)\<close> returns \<open>0x100020\<close>, the
  client stores the byte \<open>0x7F\<close> there, and \<^verbatim>\<open>set(0x100020, 1)\<close> then changes the server
  buffer at \<open>0x10000\<close> from 0 to \<open>0x7F\<close>.
\<close>

theorem set_of_get_pointer_counterexample:
  "fst (IJackPortConverter_get (Shadow (example_shadow 0)) 1 example_world) = 0x100020 \<and>
   heap (client_writes 0x100020 0x7F
           (snd (snd (IJackPortConverter_get (Shadow (example_shadow 0)) 1 example_world)))) 0x10000 = 0 \<and>
   heap (snd (IJackPortConverter_set (Shadow (example_shadow 0)) 0x100020 1
           (client_writes 0x100020 0x7F
              (snd (snd (IJackPortConverter_get (Shadow (example_shadow 0)) 1 example_world)))))) 0x10000
     = 0x7F"
  by (simp add: Shadow_get_def Shadow_set_def copy_from_jack_def copy_to_jack_def client_writes_def
        example_world_def example_shadow_def ShadowBufferJackPortConverter_new_def
        GET_32BYTE_ALIGN_BUFFER_def BUF_ALIGN_MASK_def BUF_ALIGN_BYTES_def sizeof_sample_def
        get_buffer_def get_shadow_buffer_def memcpy_def memmove_def Let_def)


end
